theory Spec2Isabelle
  imports Main
begin

section \<open>Single-precision floating point\<close>

text \<open>
  Every coordinate and velocity of the game is a C++ \<^verbatim>\<open>float\<close>.  It is modelled as an
  IEEE 754 binary32 value with round-to-nearest-even, every operation rounded to
  binary32 (the evaluation method of the x86-64 and ARM64 builds).

  Every finite binary32 value is an integer multiple of \<open>2 ^ -149\<close>, the smallest
  subnormal.  \<open>Fin s n\<close> is the value \<open>(-1) ^ s * n * 2 ^ -149\<close>: \<open>s\<close> is the sign bit
  (\<open>True\<close> for negative, so \<open>Fin True 0\<close> is the negative zero) and \<open>n\<close> the magnitude
  in units of \<open>2 ^ -149\<close>.  \<open>Inf s\<close> are the two infinities and \<open>NaN\<close> stands for every
  not-a-number (payloads are not modelled).
\<close>

datatype float32 = Fin bool nat | Inf bool | NaN

text \<open>The number of binary digits of a magnitude.\<close>

fun bitlen :: "nat \<Rightarrow> nat" where
  "bitlen n = (if n = 0 then 0 else Suc (bitlen (n div 2)))"

declare bitlen.simps [simp del]

text \<open>
  Rounding a magnitude to 24 significant bits, ties to even: the \<open>k\<close> low bits beyond
  the 24 leading ones are dropped and the kept part is incremented when the dropped part
  is more than half a unit in the last place, or exactly half with an odd kept part.
\<close>

definition round_mag :: "nat \<Rightarrow> nat" where
  "round_mag n =
     (let k = bitlen n - 24; q = n div 2 ^ k; r = n mod 2 ^ k
      in if 2 ^ k < 2 * r \<or> (2 * r = 2 ^ k \<and> odd q) then (q + 1) * 2 ^ k else q * 2 ^ k)"

text \<open>
  The largest finite binary32 value is \<open>(2 ^ 24 - 1) * 2 ^ 104\<close>, that is
  \<open>(2 ^ 24 - 1) * 2 ^ 253\<close> units; a magnitude that rounds to \<open>2 ^ 277\<close> units
  (\<open>2 ^ 128\<close>) or more overflows to infinity.
\<close>

definition mk_float32 :: "bool \<Rightarrow> nat \<Rightarrow> float32" where
  "mk_float32 s n = (let m = round_mag n in if 2 ^ 277 \<le> m then Inf s else Fin s m)"

text \<open>The binary32 values: rounded magnitudes below the overflow threshold.\<close>

fun valid_float32 :: "float32 \<Rightarrow> bool" where
  "valid_float32 (Fin s n) = (round_mag n = n \<and> n < 2 ^ 277)"
| "valid_float32 (Inf s) = True"
| "valid_float32 NaN = True"

text \<open>Conversion of a C++ \<^verbatim>\<open>int\<close> to \<^verbatim>\<open>float\<close>.\<close>

definition float32_of_int :: "int \<Rightarrow> float32" where
  "float32_of_int i = mk_float32 (i < 0) (nat \<bar>i\<bar> * 2 ^ 149)"

fun fneg :: "float32 \<Rightarrow> float32" where
  "fneg (Fin s n) = Fin (\<not> s) n"
| "fneg (Inf s) = Inf (\<not> s)"
| "fneg NaN = NaN"

text \<open>
  Addition: the exact sum of the two operands, rounded.  An exact sum of zero of two
  operands of opposite sign is the positive zero; infinities of opposite sign give NaN.
\<close>

fun fadd :: "float32 \<Rightarrow> float32 \<Rightarrow> float32" where
  "fadd NaN b = NaN"
| "fadd (Inf s) NaN = NaN"
| "fadd (Fin s m) NaN = NaN"
| "fadd (Inf s) (Inf t) = (if s = t then Inf s else NaN)"
| "fadd (Inf s) (Fin t n) = Inf s"
| "fadd (Fin s m) (Inf t) = Inf t"
| "fadd (Fin s m) (Fin t n) =
     (if s = t then mk_float32 s (m + n)
      else if m = n then Fin False 0
      else if n < m then mk_float32 s (m - n)
      else mk_float32 t (n - m))"

definition fsub :: "float32 \<Rightarrow> float32 \<Rightarrow> float32" where
  "fsub a b = fadd a (fneg b)"

text \<open>The value of a finite float as a signed number of units.\<close>

definition units :: "bool \<Rightarrow> nat \<Rightarrow> int" where
  "units s n = (if s then - int n else int n)"

text \<open>The comparisons \<^verbatim>\<open><\<close> and \<^verbatim>\<open>>\<close>: false whenever an operand is NaN.\<close>

fun flt :: "float32 \<Rightarrow> float32 \<Rightarrow> bool" where
  "flt NaN b = False"
| "flt (Inf s) NaN = False"
| "flt (Fin s m) NaN = False"
| "flt (Inf s) (Inf t) = (s \<and> \<not> t)"
| "flt (Inf s) (Fin t n) = s"
| "flt (Fin s m) (Inf t) = (\<not> t)"
| "flt (Fin s m) (Fin t n) = (units s m < units t n)"

definition fgt :: "float32 \<Rightarrow> float32 \<Rightarrow> bool" where
  "fgt a b = flt b a"

text \<open>
  The literal \<^verbatim>\<open>0.2f\<close>: the binary32 value nearest to one fifth,
  \<open>13421773 * 2 ^ -26\<close> (bit pattern \<^verbatim>\<open>0x3E4CCCCD\<close>).
\<close>

definition lit_0_2f :: float32 where
  "lit_0_2f = Fin False (13421773 * 2 ^ 123)"

section \<open>Entities\<close>

text \<open>
  \<^verbatim>\<open>sf::Vector2f\<close>, the base class \<^verbatim>\<open>GameObject\<close> with its \<^verbatim>\<open>position\<close>, and the
  two classes derived from it.  \<^verbatim>\<open>Platform\<close> adds no field to \<^verbatim>\<open>GameObject\<close>;
  \<^verbatim>\<open>Player\<close> adds \<^verbatim>\<open>dx\<close> and \<^verbatim>\<open>dy\<close>.
\<close>

record Vector2f =
  x :: float32
  y :: float32

record GameObject =
  position :: Vector2f

type_synonym Platform = GameObject

record Player = GameObject +
  dx :: float32
  dy :: float32

definition getPosition :: "'a GameObject_scheme \<Rightarrow> Vector2f" where
  "getPosition obj = position obj"

definition setPosition :: "float32 \<Rightarrow> float32 \<Rightarrow> 'a GameObject_scheme \<Rightarrow> 'a GameObject_scheme" where
  "setPosition a b obj = obj\<lparr>position := \<lparr>x = a, y = b\<rparr>\<rparr>"

text \<open>The constructor \<^verbatim>\<open>Platform(float x, float y)\<close>.\<close>

definition Platform_new :: "float32 \<Rightarrow> float32 \<Rightarrow> Platform" where
  "Platform_new a b = \<lparr>position = \<lparr>x = a, y = b\<rparr>\<rparr>"

text \<open>\<^verbatim>\<open>Platform::move(float dy)\<close>: \<^verbatim>\<open>position.y -= dy\<close>.\<close>

definition Platform_move :: "float32 \<Rightarrow> Platform \<Rightarrow> Platform" where
  "Platform_move d p = p\<lparr>position := (position p)\<lparr>y := fsub (y (position p)) d\<rparr>\<rparr>"

text \<open>The constructor \<^verbatim>\<open>Player() : GameObject(200, 200), dx(0.0f), dy(0.0f)\<close>.\<close>

definition Player_new :: Player where
  "Player_new =
     \<lparr>position = \<lparr>x = float32_of_int 200, y = float32_of_int 200\<rparr>,
      dx = float32_of_int 0, dy = float32_of_int 0\<rparr>"

definition moveLeft :: "Player \<Rightarrow> Player" where
  "moveLeft p = p\<lparr>position := (position p)\<lparr>x := fsub (x (position p)) (float32_of_int 5)\<rparr>\<rparr>"

definition moveRight :: "Player \<Rightarrow> Player" where
  "moveRight p = p\<lparr>position := (position p)\<lparr>x := fadd (x (position p)) (float32_of_int 5)\<rparr>\<rparr>"

text \<open>\<^verbatim>\<open>dy += 0.2f; position.y += dy;\<close>\<close>

definition applyGravity :: "Player \<Rightarrow> Player" where
  "applyGravity p =
     (let p1 = p\<lparr>dy := fadd (dy p) lit_0_2f\<rparr>
      in p1\<lparr>position := (position p1)\<lparr>y := fadd (y (position p1)) (dy p1)\<rparr>\<rparr>)"

text \<open>\<^verbatim>\<open>dy = -8.0f\<close>: the negated literal \<^verbatim>\<open>8.0f\<close>.\<close>

definition jump :: "Player \<Rightarrow> Player" where
  "jump p = p\<lparr>dy := fneg (float32_of_int 8)\<rparr>"

definition reset :: "Player \<Rightarrow> Player" where
  "reset p =
     p\<lparr>position := \<lparr>x = float32_of_int 200, y = float32_of_int 200\<rparr>,
       dx := float32_of_int 0, dy := float32_of_int 0\<rparr>"

definition getVelocityY :: "Player \<Rightarrow> float32" where
  "getVelocityY p = dy p"

text \<open>\<^verbatim>\<open>Player::update()\<close> calls \<^verbatim>\<open>applyGravity()\<close>.\<close>

definition Player_update :: "Player \<Rightarrow> Player" where
  "Player_update p = applyGravity p"

section \<open>The game\<close>

text \<open>
  What \<^verbatim>\<open>draw()\<close> hands to the window between \<^verbatim>\<open>window.clear()\<close> and
  \<^verbatim>\<open>window.display()\<close>: the background, the two texts of the game-over screen, the
  character and platform sprites at their positions, and the score text.
\<close>

datatype Drawable =
  Draw_sBackground
  | Draw_gameOverText
  | Draw_retryText
  | Draw_sPers Vector2f
  | Draw_sPlat Vector2f
  | Draw_scoreText string

text \<open>The statements of the loop body of \<^verbatim>\<open>Game::run\<close>, for the record of what a frame ran.\<close>

datatype Step =
  Step_handleInput
  | Step_player_update
  | Step_fall_out_check
  | Step_scroll_check
  | Step_updatePlatforms
  | Step_handleCollisions
  | Step_draw

text \<open>
  The members of \<^verbatim>\<open>Game\<close> that the simulation reads or writes.  Of the window only
  whether it is open is kept; \<open>displayed\<close> is what the last \<^verbatim>\<open>draw()\<close> presented,
  \<open>jumpSound_plays\<close> counts the calls of \<^verbatim>\<open>jumpSound.play()\<close>, \<open>rand_calls\<close> the calls
  of \<^verbatim>\<open>rand()\<close> so far, and \<open>steps\<close> records the statements of \<^verbatim>\<open>run\<close> in the order
  they were reached.  \<^verbatim>\<open>score\<close> is a C++ \<^verbatim>\<open>int\<close>.
\<close>

record Game =
  player :: Player
  platforms :: "Platform list"
  score :: int
  gameOver :: bool
  window_isOpen :: bool
  scoreText :: string
  jumpSound_plays :: nat
  displayed :: "Drawable list"
  rand_calls :: nat
  steps :: "Step list"

text \<open>
  The environment of a run: the sequence of values \<^verbatim>\<open>rand()\<close> returns after
  \<^verbatim>\<open>srand(time(0))\<close> (non-negative, as the C standard says), and the order in which the
  compiler evaluates the two arguments of one call, which C++ leaves unspecified.
\<close>

record Env =
  rand_seq :: "nat \<Rightarrow> nat"
  args_left_to_right :: bool

text \<open>
  Undefined behaviour is an error value: \<^verbatim>\<open>score++\<close> overflows a 32-bit \<^verbatim>\<open>int\<close> at
  \<^verbatim>\<open>INT_MAX\<close>.
\<close>

datatype error = SignedOverflow

definition INT_MAX :: int where
  "INT_MAX = 2147483647"

definition rand :: "Env \<Rightarrow> Game \<Rightarrow> nat \<times> Game" where
  "rand env g = (rand_seq env (rand_calls g), g\<lparr>rand_calls := Suc (rand_calls g)\<rparr>)"

text \<open>The decimal digits that \<^verbatim>\<open>ostringstream << int\<close> writes.\<close>

fun show_nat :: "nat \<Rightarrow> string" where
  "show_nat n =
     (if n < 10 then [''0123456789'' ! n]
      else show_nat (n div 10) @ [''0123456789'' ! (n mod 10)])"

declare show_nat.simps [simp del]

definition show_int :: "int \<Rightarrow> string" where
  "show_int i = (if i < 0 then CHR ''-'' # show_nat (nat (- i)) else show_nat (nat i))"

definition updateScoreText :: "Game \<Rightarrow> Game" where
  "updateScoreText g = g\<lparr>scoreText := ''Score: '' @ show_int (score g)\<rparr>"

text \<open>
  \<^verbatim>\<open>platforms.emplace_back(rand() % 500, rand() % 700)\<close>: two calls of \<^verbatim>\<open>rand()\<close>, the
  first of them for the argument that the compiler evaluates first.
\<close>

definition emplace_random :: "Env \<Rightarrow> Game \<Rightarrow> Game" where
  "emplace_random env g =
     (let (a, g1) = rand env g;
          (b, g2) = rand env g1;
          (c, d) = (if args_left_to_right env then (a mod 500, b mod 700) else (b mod 500, a mod 700))
      in g2\<lparr>platforms :=
             platforms g2 @ [Platform_new (float32_of_int (int c)) (float32_of_int (int d))]\<rparr>)"

text \<open>\<^verbatim>\<open>for (int i = 0; i < 10; i++) platforms.emplace_back(...)\<close>\<close>

function resetGame_loop :: "Env \<Rightarrow> int \<Rightarrow> Game \<Rightarrow> Game" where
  "resetGame_loop env i g =
     (if i < 10 then resetGame_loop env (i + 1) (emplace_random env g) else g)"
  by pat_completeness auto
termination
  by (relation "measure (\<lambda>(env, i, g). nat (10 - i))") auto

declare resetGame_loop.simps [simp del]

definition resetGame :: "Env \<Rightarrow> Game \<Rightarrow> Game" where
  "resetGame env g =
     (let g1 = g\<lparr>player := reset (player g)\<rparr>;
          g2 = g1\<lparr>score := 0\<rparr>;
          g3 = g2\<lparr>gameOver := False\<rparr>;
          g4 = g3\<lparr>platforms := []\<rparr>;
          g5 = resetGame_loop env 0 g4
      in updateScoreText g5)"

text \<open>
  One frame's input: the events that \<^verbatim>\<open>window.pollEvent\<close> delivers in this frame,
  each with the state of the R and Escape keys at the moment it is handled, and the state
  of the arrow keys when \<^verbatim>\<open>handleInput\<close> asks for them.
\<close>

record Event =
  type_Closed :: bool
  key_R :: bool
  key_Escape :: bool

record FrameInput =
  events :: "Event list"
  key_Left :: bool
  key_Right :: bool

definition handleInput :: "FrameInput \<Rightarrow> Game \<Rightarrow> Game" where
  "handleInput inp g =
     (let g1 = (if key_Left inp then g\<lparr>player := moveLeft (player g)\<rparr> else g)
      in if key_Right inp then g1\<lparr>player := moveRight (player g1)\<rparr> else g1)"

text \<open>The condition of \<^verbatim>\<open>handleCollisions\<close>, for one platform and the player.\<close>

definition collision_test :: "Platform \<Rightarrow> Player \<Rightarrow> bool" where
  "collision_test pf pl =
     (let pPos = getPosition pf; plPos = getPosition pl
      in fgt (fadd (x plPos) (float32_of_int 50)) (x pPos) \<and>
         flt (fadd (x plPos) (float32_of_int 20)) (fadd (x pPos) (float32_of_int 68)) \<and>
         fgt (fadd (y plPos) (float32_of_int 70)) (y pPos) \<and>
         flt (fadd (y plPos) (float32_of_int 70)) (fadd (y pPos) (float32_of_int 14)) \<and>
         fgt (getVelocityY pl) (float32_of_int 0))"

text \<open>The body of the loop of \<^verbatim>\<open>handleCollisions\<close>, for one platform.\<close>

definition handleCollisions_body :: "Platform \<Rightarrow> Game \<Rightarrow> Game" where
  "handleCollisions_body pf g =
     (if collision_test pf (player g)
      then g\<lparr>player := jump (player g), jumpSound_plays := Suc (jumpSound_plays g)\<rparr>
      else g)"

fun handleCollisions_loop :: "Platform list \<Rightarrow> Game \<Rightarrow> Game" where
  "handleCollisions_loop [] g = g"
| "handleCollisions_loop (pf # rest) g = handleCollisions_loop rest (handleCollisions_body pf g)"

definition handleCollisions :: "Game \<Rightarrow> Game" where
  "handleCollisions g = handleCollisions_loop (platforms g) g"

text \<open>
  The body of the loop of \<^verbatim>\<open>updatePlatforms\<close>, for one platform: the platform as the
  body leaves it, and the game with the score and the random sequence advanced.
\<close>

definition updatePlatforms_body :: "Env \<Rightarrow> Platform \<Rightarrow> Game \<Rightarrow> error + Platform \<times> Game" where
  "updatePlatforms_body env pf g =
     (let p1 = Platform_move (getVelocityY (player g)) pf
      in if fgt (y (getPosition p1)) (float32_of_int 700)
         then (let (r, g1) = rand env g;
                   p2 = setPosition (float32_of_int (int (r mod 500))) (float32_of_int 0) p1
               in if score g1 = INT_MAX then Inl SignedOverflow
                  else Inr (p2, g1\<lparr>score := score g1 + 1\<rparr>))
         else Inr (p1, g))"

text \<open>
  The loop over the platforms, in the order of the vector.  The body reads the player,
  the score and the random sequence from the game, never the vector itself, so the
  platforms already visited are collected beside the game and stored when the loop ends.
\<close>

fun updatePlatforms_loop :: "Env \<Rightarrow> Platform list \<Rightarrow> Game \<Rightarrow> error + Platform list \<times> Game" where
  "updatePlatforms_loop env [] g = Inr ([], g)"
| "updatePlatforms_loop env (pf # rest) g =
     (case updatePlatforms_body env pf g of
        Inl e \<Rightarrow> Inl e
      | Inr (pf', g1) \<Rightarrow>
          (case updatePlatforms_loop env rest g1 of
             Inl e \<Rightarrow> Inl e
           | Inr (rest', g2) \<Rightarrow> Inr (pf' # rest', g2)))"

definition updatePlatforms :: "Env \<Rightarrow> Game \<Rightarrow> error + Game" where
  "updatePlatforms env g =
     (case updatePlatforms_loop env (platforms g) g of
        Inl e \<Rightarrow> Inl e
      | Inr (ps, g1) \<Rightarrow> Inr (updateScoreText (g1\<lparr>platforms := ps\<rparr>)))"

definition draw :: "Game \<Rightarrow> Game" where
  "draw g =
     g\<lparr>displayed :=
         (if gameOver g then [Draw_sBackground, Draw_gameOverText, Draw_retryText]
          else [Draw_sBackground, Draw_sPers (position (player g))]
               @ map (\<lambda>pf. Draw_sPlat (position pf)) (platforms g)
               @ [Draw_scoreText (scoreText g)])\<rparr>"

text \<open>The two conditionals of \<^verbatim>\<open>run\<close> between \<^verbatim>\<open>player.update()\<close> and \<^verbatim>\<open>updatePlatforms()\<close>.\<close>

definition fall_out_check :: "Game \<Rightarrow> Game" where
  "fall_out_check g =
     (if fgt (y (getPosition (player g))) (float32_of_int 700) then g\<lparr>gameOver := True\<rparr> else g)"

definition scroll_check :: "Game \<Rightarrow> Game" where
  "scroll_check g =
     (if flt (y (getPosition (player g))) (float32_of_int 300)
      then (let offset = fsub (float32_of_int 300) (y (getPosition (player g)));
                g1 = g\<lparr>player := setPosition (x (getPosition (player g))) (float32_of_int 300) (player g)\<rparr>
            in g1\<lparr>platforms := map (Platform_move (fneg offset)) (platforms g1)\<rparr>)
      else g)"

text \<open>The statement \<^verbatim>\<open>player.update()\<close> of \<^verbatim>\<open>run\<close>.\<close>

definition update_player :: "Game \<Rightarrow> Game" where
  "update_player g = g\<lparr>player := Player_update (player g)\<rparr>"

definition reached :: "Step \<Rightarrow> Game \<Rightarrow> Game" where
  "reached st g = g\<lparr>steps := steps g @ [st]\<rparr>"

text \<open>The block under \<^verbatim>\<open>if (!gameOver)\<close>.\<close>

definition playing_update :: "Env \<Rightarrow> FrameInput \<Rightarrow> Game \<Rightarrow> error + Game" where
  "playing_update env inp g =
     (let g1 = handleInput inp (reached Step_handleInput g);
          g2 = update_player (reached Step_player_update g1);
          g3 = fall_out_check (reached Step_fall_out_check g2);
          g4 = scroll_check (reached Step_scroll_check g3)
      in case updatePlatforms env (reached Step_updatePlatforms g4) of
           Inl e \<Rightarrow> Inl e
         | Inr g5 \<Rightarrow> Inr (handleCollisions (reached Step_handleCollisions g5)))"

text \<open>The event loop \<^verbatim>\<open>while (window.pollEvent(e))\<close>.\<close>

definition handle_event :: "Env \<Rightarrow> Event \<Rightarrow> Game \<Rightarrow> Game" where
  "handle_event env e g =
     (let g1 = (if type_Closed e then g\<lparr>window_isOpen := False\<rparr> else g)
      in if gameOver g1
         then (if key_R e then resetGame env g1
               else if key_Escape e then g1\<lparr>window_isOpen := False\<rparr>
               else g1)
         else g1)"

fun pollEvents :: "Env \<Rightarrow> Event list \<Rightarrow> Game \<Rightarrow> Game" where
  "pollEvents env [] g = g"
| "pollEvents env (e # es) g = pollEvents env es (handle_event env e g)"

text \<open>One iteration of \<^verbatim>\<open>while (window.isOpen())\<close>.\<close>

definition frame :: "Env \<Rightarrow> FrameInput \<Rightarrow> Game \<Rightarrow> error + Game" where
  "frame env inp g =
     (let g1 = pollEvents env (events inp) g
      in case (if \<not> gameOver g1 then playing_update env inp g1 else Inr g1) of
           Inl e \<Rightarrow> Inl e
         | Inr g2 \<Rightarrow> Inr (draw (reached Step_draw g2)))"

text \<open>
  \<^verbatim>\<open>Game::run\<close>, over the inputs of the frames observed: the loop goes on while the
  window is open, one input per iteration.
\<close>

fun run :: "Env \<Rightarrow> FrameInput list \<Rightarrow> Game \<Rightarrow> error + Game" where
  "run env [] g = Inr g"
| "run env (inp # inps) g =
     (if window_isOpen g
      then (case frame env inp g of Inl e \<Rightarrow> Inl e | Inr g1 \<Rightarrow> run env inps g1)
      else Inr g)"

text \<open>
  The constructor.  The members are initialised (\<^verbatim>\<open>score(0)\<close>, \<^verbatim>\<open>gameOver(false)\<close>, the
  default-constructed player and an empty vector); the textures are loaded without a
  check; a font or a sound that does not load ends the constructor at once; otherwise
  it ends with \<^verbatim>\<open>resetGame()\<close>.
\<close>

definition Game_members :: Game where
  "Game_members =
     \<lparr>player = Player_new, platforms = [], score = 0, gameOver = False,
      window_isOpen = True, scoreText = [], jumpSound_plays = 0, displayed = [],
      rand_calls = 0, steps = []\<rparr>"

definition Game_new :: "Env \<Rightarrow> bool \<Rightarrow> bool \<Rightarrow> Game" where
  "Game_new env font_loaded sound_loaded =
     (if \<not> font_loaded then Game_members
      else if \<not> sound_loaded then Game_members
      else resetGame env Game_members)"

text \<open>\<^verbatim>\<open>main\<close>: \<^verbatim>\<open>Game game; game.run();\<close>\<close>

definition main :: "Env \<Rightarrow> bool \<Rightarrow> bool \<Rightarrow> FrameInput list \<Rightarrow> error + Game" where
  "main env font_loaded sound_loaded inps = run env inps (Game_new env font_loaded sound_loaded)"

section \<open>Notions used to state the properties\<close>

text \<open>
  The window is created with \<^verbatim>\<open>VideoMode(500, 700)\<close>.  The platform sprite is an image
  file; the collision test of \<^verbatim>\<open>handleCollisions\<close> takes 68 for its horizontal extent.
\<close>

definition window_width :: int where
  "window_width = 500"

definition platform_width :: int where
  "platform_width = 68"

text \<open>A position with its x coordinate in [0, 500) and its y coordinate in [0, 700).\<close>

definition in_window :: "Vector2f \<Rightarrow> bool" where
  "in_window p \<longleftrightarrow>
     \<not> flt (x p) (float32_of_int 0) \<and> flt (x p) (float32_of_int 500) \<and>
     \<not> flt (y p) (float32_of_int 0) \<and> flt (y p) (float32_of_int 700)"

text \<open>A platform is beyond the bottom bound once it has moved by the velocity \<open>v\<close>.\<close>

definition recycles :: "float32 \<Rightarrow> Platform \<Rightarrow> bool" where
  "recycles v pf = fgt (y (position (Platform_move v pf))) (float32_of_int 700)"

text \<open>
  The platform that \<^verbatim>\<open>resetGame\<close> builds from the values number \<open>c\<close> and \<open>c + 1\<close> of the
  random sequence, and the list of \<open>n\<close> such platforms built from the values \<open>c\<close> onwards.
\<close>

definition random_platform :: "Env \<Rightarrow> nat \<Rightarrow> Platform" where
  "random_platform env c =
     (if args_left_to_right env
      then Platform_new (float32_of_int (int (rand_seq env c mod 500)))
             (float32_of_int (int (rand_seq env (Suc c) mod 700)))
      else Platform_new (float32_of_int (int (rand_seq env (Suc c) mod 500)))
             (float32_of_int (int (rand_seq env c mod 700))))"

fun random_platforms :: "Env \<Rightarrow> nat \<Rightarrow> nat \<Rightarrow> Platform list" where
  "random_platforms env c 0 = []"
| "random_platforms env c (Suc n) = random_platform env c # random_platforms env (c + 2) n"

text \<open>The game as the first four steps of the update section leave it.\<close>

definition after_scroll_check :: "FrameInput \<Rightarrow> Game \<Rightarrow> Game" where
  "after_scroll_check inp g =
     scroll_check (reached Step_scroll_check
       (fall_out_check (reached Step_fall_out_check
         (update_player (reached Step_player_update
           (handleInput inp (reached Step_handleInput g)))))))"

subsection \<open>Concrete inputs for the examples\<close>

text \<open>
  A random sequence that always yields 450, a frame without events and without keys held,
  a platform at a whole-number position, and a game in the playing state with the player
  at a whole-number position with vertical velocity \<open>v\<close> and the platforms \<open>ps\<close>.
\<close>

definition example_env :: Env where
  "example_env = \<lparr>rand_seq = (\<lambda>n. 450), args_left_to_right = True\<rparr>"

definition example_input :: FrameInput where
  "example_input = \<lparr>events = [], key_Left = False, key_Right = False\<rparr>"

definition example_platform :: "int \<Rightarrow> int \<Rightarrow> Platform" where
  "example_platform a b = Platform_new (float32_of_int a) (float32_of_int b)"

definition example_game :: "int \<Rightarrow> int \<Rightarrow> float32 \<Rightarrow> Platform list \<Rightarrow> Game" where
  "example_game a b v ps =
     \<lparr>player = \<lparr>position = \<lparr>x = float32_of_int a, y = float32_of_int b\<rparr>,
                 dx = float32_of_int 0, dy = v\<rparr>,
      platforms = ps, score = 0, gameOver = False, window_isOpen = True,
      scoreText = ''Score: 0'', jumpSound_plays = 0, displayed = [], rand_calls = 0,
      steps = []\<rparr>"

text \<open>The player one pixel above the bottom bound, falling at 5 pixels per frame.\<close>

definition example_falling :: Game where
  "example_falling = example_game 200 699 (float32_of_int 5) [example_platform 100 100]"

text \<open>That game after the first three steps of its next frame: the fall-out check has run.\<close>

definition example_fallen :: Game where
  "example_fallen =
     fall_out_check (reached Step_fall_out_check (update_player (reached Step_player_update
       (handleInput example_input (reached Step_handleInput
         (pollEvents example_env (events example_input) example_falling))))))"

text \<open>A game that is over.\<close>

definition example_over :: Game where
  "example_over =
     (example_game 200 705 (float32_of_int 5) [example_platform 100 100])\<lparr>gameOver := True\<rparr>"

text \<open>
  Two platforms under the player's feet, the player moving down at 3 pixels per frame, and
  the same with the player moving up.
\<close>

definition example_descending :: Game where
  "example_descending =
     example_game 200 100 (float32_of_int 3) [example_platform 200 165, example_platform 210 168]"

definition example_ascending :: Game where
  "example_ascending =
     example_game 200 100 (fneg (float32_of_int 3))
       [example_platform 200 165, example_platform 210 168]"

text \<open>A platform below the bottom bound, with the player at rest.\<close>

definition example_low_platform :: Game where
  "example_low_platform = example_game 200 400 (float32_of_int 0) [example_platform 10 705]"

text \<open>The player above the scroll threshold, and a game without platforms.\<close>

definition example_high :: Game where
  "example_high = example_game 200 250 (float32_of_int 0) [example_platform 100 100]"


text \<open>A frame in which one event is handled while the R key is held.\<close>

definition example_retry :: FrameInput where
  "example_retry =
     \<lparr>events = [\<lparr>type_Closed = False, key_R = True, key_Escape = False\<rparr>],
      key_Left = False, key_Right = False\<rparr>"

section \<open>Properties of the floating-point operations\<close>

subsection \<open>Evaluation on numerals\<close>

text \<open>
  The number of digits of a numeral follows its binary representation, so the simplifier
  evaluates the floating-point operations on concrete values with \<open>float32_eval\<close>.
\<close>

lemma bitlen_0: "bitlen 0 = 0" by (simp add: bitlen.simps)
lemma bitlen_Suc0: "bitlen (Suc 0) = 1" by (simp add: bitlen.simps)
lemma bitlen_Bit0: "bitlen (numeral (Num.Bit0 n)) = 1 + bitlen (numeral n)"
  by (subst bitlen.simps) simp
lemma bitlen_Bit1: "bitlen (numeral (Num.Bit1 n)) = 1 + bitlen (numeral n)"
  by (subst bitlen.simps) simp
lemmas float32_eval = bitlen_0 bitlen_Suc0 bitlen_Bit0 bitlen_Bit1
  float32_of_int_def lit_0_2f_def mk_float32_def round_mag_def Let_def fsub_def fgt_def units_def

subsection \<open>The number of binary digits\<close>

lemma bitlen_pos: "0 < n \<Longrightarrow> bitlen n = Suc (bitlen (n div 2))"
  by (subst bitlen.simps) simp

lemma bitlen_upper: "n < 2 ^ bitlen n"
proof (induction n rule: bitlen.induct)
  case (1 n)
  show ?case
  proof (cases "n = 0")
    case True
    then show ?thesis by (simp add: bitlen_0)
  next
    case False
    with 1 have "n div 2 < 2 ^ bitlen (n div 2)" by simp
    then have "n < 2 * 2 ^ bitlen (n div 2)" by linarith
    with False show ?thesis by (simp add: bitlen_pos)
  qed
qed

lemma bitlen_lower: "0 < n \<Longrightarrow> 2 ^ (bitlen n - 1) \<le> n"
proof (induction n rule: bitlen.induct)
  case (1 n)
  show ?case
  proof (cases "n div 2 = 0")
    case True
    with 1 have "n = 1" by linarith
    then show ?thesis by (simp add: bitlen_Suc0)
  next
    case False
    with 1 have "2 ^ (bitlen (n div 2) - 1) \<le> n div 2" by simp
    moreover have "0 < bitlen (n div 2)" using False by (simp add: bitlen_pos)
    ultimately have "2 ^ bitlen (n div 2) \<le> 2 * (n div 2)"
      by (metis Suc_pred' power_Suc mult_le_mono2)
    then have "2 ^ bitlen (n div 2) \<le> n" by linarith
    with 1 show ?thesis by (simp add: bitlen_pos)
  qed
qed

lemma bitlen_le: "n < 2 ^ k \<Longrightarrow> bitlen n \<le> k"
proof (rule ccontr)
  assume a: "n < 2 ^ k" and "\<not> bitlen n \<le> k"
  then have k: "k \<le> bitlen n - 1" and pos: "0 < n"
    by (auto simp: bitlen_0 intro: Nat.gr0I)
  have "(2::nat) ^ k \<le> 2 ^ (bitlen n - 1)" using k by (simp add: power_increasing)
  also have "\<dots> \<le> n" by (rule bitlen_lower[OF pos])
  finally show False using a by simp
qed

lemma bitlen_gt: "2 ^ k \<le> n \<Longrightarrow> k < bitlen n"
proof (rule ccontr)
  assume a: "2 ^ k \<le> n" and "\<not> k < bitlen n"
  then have "(2::nat) ^ bitlen n \<le> 2 ^ k" by (simp add: power_increasing)
  with bitlen_upper[of n] a show False by simp
qed

lemma bitlen_mono: "m \<le> n \<Longrightarrow> bitlen m \<le> bitlen n"
  by (meson bitlen_le bitlen_upper le_less_trans)

lemma bitlen_eqI: "2 ^ k \<le> n \<Longrightarrow> n < 2 ^ Suc k \<Longrightarrow> bitlen n = Suc k"
  using bitlen_gt[of k n] bitlen_le[of n "Suc k"] by simp

lemma bitlen_mult_pow: "0 < n \<Longrightarrow> bitlen (n * 2 ^ j) = bitlen n + j"
proof -
  assume pos: "0 < n"
  then obtain b where b: "bitlen n = Suc b"
    by (metis bitlen_pos)
  have lo: "2 ^ b \<le> n" using bitlen_lower[OF pos] b by simp
  have hi: "n < 2 ^ Suc b" using bitlen_upper[of n] b by simp
  have "2 ^ (b + j) \<le> n * 2 ^ j" using lo by (simp add: power_add)
  moreover have "n * 2 ^ j < 2 ^ Suc (b + j)"
    using hi by (simp add: power_add)
  ultimately have "bitlen (n * 2 ^ j) = Suc (b + j)" by (rule bitlen_eqI)
  then show ?thesis by (simp add: b)
qed

subsection \<open>Rounding\<close>

text \<open>
  Magnitudes of at most 24 digits, and their multiples by a power of two, are not changed
  by rounding: a whole number below \<open>2 ^ 24\<close> converts exactly.
\<close>

lemma round_mag_small: "n < 2 ^ 24 \<Longrightarrow> round_mag n = n"
proof -
  assume "n < 2 ^ 24"
  then have "bitlen n - 24 = 0" using bitlen_le[of n 24] by simp
  then show ?thesis by (simp add: round_mag_def)
qed

lemma round_mag_dvd: "2 ^ (bitlen n - 24) dvd n \<Longrightarrow> round_mag n = n"
  by (auto simp: round_mag_def Let_def mod_eq_0_iff_dvd)

lemma round_mag_mult_pow:
  assumes "a < 2 ^ 24"
  shows "round_mag (a * 2 ^ j) = a * 2 ^ j"
proof (cases "a = 0")
  case True
  then show ?thesis by (simp add: round_mag_small)
next
  case False
  then have "bitlen (a * 2 ^ j) = bitlen a + j" by (simp add: bitlen_mult_pow)
  moreover have "bitlen a \<le> 24" using assms by (rule bitlen_le)
  ultimately have "bitlen (a * 2 ^ j) - 24 \<le> j" by simp
  then have "(2::nat) ^ (bitlen (a * 2 ^ j) - 24) dvd 2 ^ j" by (simp add: le_imp_power_dvd)
  then have "2 ^ (bitlen (a * 2 ^ j) - 24) dvd a * 2 ^ j" by (rule dvd_mult)
  then show ?thesis by (rule round_mag_dvd)
qed

lemma float32_of_int_small:
  assumes "\<bar>i\<bar> < 2 ^ 24"
  shows "float32_of_int i = Fin (i < 0) (nat \<bar>i\<bar> * 2 ^ 149)"
proof -
  have a: "nat \<bar>i\<bar> < 2 ^ 24" using assms by (simp add: nat_less_iff)
  have r: "round_mag (nat \<bar>i\<bar> * 2 ^ 149) = nat \<bar>i\<bar> * 2 ^ 149"
    by (rule round_mag_mult_pow[OF a])
  have "nat \<bar>i\<bar> * 2 ^ 149 < 2 ^ 24 * (2::nat) ^ 149"
    using a by (simp only: mult_less_cancel2) simp
  also have "\<dots> \<le> 2 ^ 277" by simp
  finally have nle: "\<not> 2 ^ 277 \<le> nat \<bar>i\<bar> * 2 ^ 149" by (simp only: not_le)
  show ?thesis
    unfolding float32_of_int_def mk_float32_def Let_def r
    by (simp only: nle if_False)
qed

lemma float32_of_nat_small:
  "n < 2 ^ 24 \<Longrightarrow> float32_of_int (int n) = Fin False (n * 2 ^ 149)"
  using float32_of_int_small[of "int n"] by simp

text \<open>
  The rounded magnitude lies between the kept digits and the kept digits plus one unit in
  the last place, and rounding is monotone.
\<close>

lemma round_mag_ge_floor: "(n div 2 ^ (bitlen n - 24)) * 2 ^ (bitlen n - 24) \<le> round_mag n"
  by (simp add: round_mag_def Let_def)

lemma round_mag_le_ceil: "round_mag n \<le> (n div 2 ^ (bitlen n - 24) + 1) * 2 ^ (bitlen n - 24)"
  by (simp add: round_mag_def Let_def)

lemma kept_less: "n div 2 ^ (bitlen n - 24) < 2 ^ 24"
proof -
  have "bitlen n \<le> 24 + (bitlen n - 24)" by simp
  then have "(2::nat) ^ bitlen n \<le> 2 ^ (24 + (bitlen n - 24))"
    by (rule power_increasing) simp
  with bitlen_upper[of n] have "n < 2 ^ 24 * 2 ^ (bitlen n - 24)"
    by (simp add: power_add)
  then show ?thesis by (simp add: less_mult_imp_div_less)
qed

lemma round_mag_le_pow: "round_mag n \<le> 2 ^ (24 + (bitlen n - 24))"
proof -
  have "n div 2 ^ (bitlen n - 24) + 1 \<le> 2 ^ 24" using kept_less[of n] by simp
  then have "(n div 2 ^ (bitlen n - 24) + 1) * 2 ^ (bitlen n - 24) \<le> 2 ^ 24 * 2 ^ (bitlen n - 24)"
    by (rule mult_le_mono1)
  also have "\<dots> = 2 ^ (24 + (bitlen n - 24))" by (simp only: power_add)
  finally show ?thesis using round_mag_le_ceil[of n] by (rule le_trans[rotated])
qed

lemma kept_ge:
  assumes "24 < bitlen n"
  shows "2 ^ 23 \<le> n div 2 ^ (bitlen n - 24)"
proof -
  have pos: "0 < n" using assms by (auto simp: bitlen_0 intro: Nat.gr0I)
  have e: "bitlen n - 1 = 23 + (bitlen n - 24)" using assms by simp
  from bitlen_lower[OF pos] have "(2::nat) ^ (23 + (bitlen n - 24)) \<le> n" by (simp only: e)
  then have "(2::nat) ^ 23 * 2 ^ (bitlen n - 24) \<le> n" by (simp only: power_add)
  then have "(2 ^ 23 * 2 ^ (bitlen n - 24)) div 2 ^ (bitlen n - 24) \<le> n div 2 ^ (bitlen n - 24)"
    by (rule div_le_mono)
  moreover have "((2::nat) ^ 23 * 2 ^ (bitlen n - 24)) div 2 ^ (bitlen n - 24) = 2 ^ 23"
    by (rule nonzero_mult_div_cancel_right) simp
  ultimately show ?thesis by (simp only:)
qed

lemma round_mag_ge_pow:
  assumes "24 < bitlen n"
  shows "2 ^ (23 + (bitlen n - 24)) \<le> round_mag n"
proof -
  have "(2::nat) ^ (23 + (bitlen n - 24)) = 2 ^ 23 * 2 ^ (bitlen n - 24)" by (simp only: power_add)
  also have "\<dots> \<le> (n div 2 ^ (bitlen n - 24)) * 2 ^ (bitlen n - 24)"
    using kept_ge[OF assms] by (rule mult_le_mono1)
  also have "\<dots> \<le> round_mag n" by (rule round_mag_ge_floor)
  finally show ?thesis .
qed

lemma round_mag_mono:
  assumes "m \<le> n"
  shows "round_mag m \<le> round_mag n"
proof -
  have bl: "bitlen m \<le> bitlen n" using assms by (rule bitlen_mono)
  show ?thesis
  proof (cases "bitlen m - 24 = bitlen n - 24")
    case True
    define k where "k = bitlen n - 24"
    define qm where "qm = m div 2 ^ k"
    define qn where "qn = n div 2 ^ k"
    have km: "bitlen m - 24 = k" using True by (simp add: k_def)
    have q: "qm \<le> qn" unfolding qm_def qn_def using assms by (rule div_le_mono)
    show ?thesis
    proof (cases "qm = qn")
      case True
      have "m mod 2 ^ k \<le> n mod 2 ^ k"
      proof -
        have "m = qm * 2 ^ k + m mod 2 ^ k" by (simp only: qm_def div_mult_mod_eq)
        moreover have "n = qm * 2 ^ k + n mod 2 ^ k" by (simp only: True qn_def div_mult_mod_eq)
        ultimately show ?thesis using assms by linarith
      qed
      then show ?thesis
        using True
        by (auto simp: round_mag_def Let_def km k_def[symmetric] qm_def qn_def)
    next
      case False
      with q have "qm + 1 \<le> qn" by simp
      then have "(qm + 1) * 2 ^ k \<le> qn * 2 ^ k" by (rule mult_le_mono1)
      moreover have "round_mag m \<le> (qm + 1) * 2 ^ k"
        using round_mag_le_ceil[of m] by (simp add: km qm_def)
      moreover have "qn * 2 ^ k \<le> round_mag n"
        using round_mag_ge_floor[of n] by (simp add: k_def qn_def)
      ultimately show ?thesis by linarith
    qed
  next
    case False
    with bl have lt: "bitlen m - 24 < bitlen n - 24" by simp
    then have big: "24 < bitlen n" by simp
    have "round_mag m \<le> 2 ^ (24 + (bitlen m - 24))" by (rule round_mag_le_pow)
    also have "\<dots> \<le> 2 ^ (23 + (bitlen n - 24))"
      using lt by (intro power_increasing) simp_all
    also have "\<dots> \<le> round_mag n" by (rule round_mag_ge_pow[OF big])
    finally show ?thesis .
  qed
qed

lemma round_mag_pos: "0 < n \<Longrightarrow> 0 < round_mag n"
proof (cases "24 < bitlen n")
  case True
  assume "0 < n"
  have "(0::nat) < 2 ^ (23 + (bitlen n - 24))" by simp
  with round_mag_ge_pow[OF True] show ?thesis by linarith
next
  case False
  assume "0 < n"
  from False have "bitlen n - 24 = 0" by simp
  then show ?thesis using \<open>0 < n\<close> by (simp add: round_mag_def)
qed

subsection \<open>Order and addition\<close>

lemma float32_of_int_0: "float32_of_int 0 = Fin False 0"
  using float32_of_int_small[of 0] by simp

lemma fgt_zero_cases:
  assumes "fgt w (float32_of_int 0)"
  obtains "w = Inf False" | b where "w = Fin False b" and "0 < b"
  using assms
  by (cases w) (auto simp: fgt_def float32_of_int_0 units_def split: if_splits)

lemma mk_float32_cases:
  obtains "mk_float32 s n = Inf s" and "2 ^ 277 \<le> round_mag n"
  | "mk_float32 s n = Fin s (round_mag n)" and "round_mag n < 2 ^ 277"
  by (cases "2 ^ 277 \<le> round_mag n") (simp_all only: mk_float32_def Let_def if_True if_False not_le)

lemma fadd_positive_not_less:
  assumes v: "valid_float32 a" and w: "fgt w (float32_of_int 0)"
  shows "\<not> flt (fadd a w) a"
proof (cases a)
  case NaN
  then show ?thesis by simp
next
  case (Inf s)
  from w show ?thesis by (cases rule: fgt_zero_cases) (simp_all add: Inf)
next
  case (Fin s m)
  with v have rm: "round_mag m = m" and fin: "m < 2 ^ 277" by simp_all
  from w show ?thesis
  proof (cases rule: fgt_zero_cases)
    case 1
    then show ?thesis by (simp add: Fin)
  next
    case (2 b)
    show ?thesis
    proof (cases s)
      case False
      have ge: "m \<le> round_mag (m + b)" using round_mag_mono[of m "m + b"] by (simp add: rm)
      have sum: "fadd (Fin False m) (Fin False b) = mk_float32 False (m + b)" by simp
      show ?thesis
        by (cases rule: mk_float32_cases[of False "m + b"])
          (use ge in \<open>simp_all add: sum Fin 2 False units_def del: fadd.simps\<close>)
    next
      case True
      consider "m = b" | "b < m" | "m < b" by linarith
      then show ?thesis
      proof cases
        case 1
        then show ?thesis by (simp add: Fin 2 True units_def)
      next
        case 2
        have le: "round_mag (m - b) \<le> m" using round_mag_mono[of "m - b" m] by (simp add: rm)
        have sum: "fadd (Fin True m) (Fin False b) = mk_float32 True (m - b)"
          using 2 by simp
        show ?thesis
          by (cases rule: mk_float32_cases[of True "m - b"])
            (use le fin in \<open>simp_all add: sum Fin \<open>w = Fin False b\<close> True units_def del: fadd.simps\<close>)
      next
        case 3
        have sum: "fadd (Fin True m) (Fin False b) = mk_float32 False (b - m)"
          using 3 by simp
        show ?thesis
          by (cases rule: mk_float32_cases[of False "b - m"])
            (simp_all add: sum Fin \<open>w = Fin False b\<close> True units_def del: fadd.simps)
      qed
    qed
  qed
qed

lemma fgt_mk_float32_zero: "0 < n \<Longrightarrow> fgt (mk_float32 False n) (float32_of_int 0)"
  using round_mag_pos[of n]
  by (cases rule: mk_float32_cases[of False n]) (simp_all add: fgt_def float32_of_int_0 units_def)

lemma fsub_positive:
  assumes "flt a (Fin False c)"
  shows "fgt (fsub (Fin False c) a) (float32_of_int 0)"
proof (cases a)
  case NaN
  with assms show ?thesis by simp
next
  case (Inf s)
  with assms show ?thesis by (simp add: fsub_def fgt_def float32_of_int_0)
next
  case (Fin s m)
  show ?thesis
  proof (cases s)
    case True
    from assms have "0 < c + m" by (auto simp: Fin True units_def intro: Nat.gr0I)
    then show ?thesis by (simp add: Fin True fsub_def fgt_mk_float32_zero)
  next
    case False
    from assms have "m < c" by (simp add: Fin False units_def)
    then show ?thesis by (simp add: Fin False fsub_def fgt_mk_float32_zero)
  qed
qed

lemma fneg_fneg: "fneg (fneg a) = a"
  by (cases a) simp_all

lemma fsub_fneg: "fsub a (fneg b) = fadd a b"
  by (simp add: fsub_def fneg_fneg)

lemma flt_asym: "flt a b \<Longrightarrow> \<not> flt b a"
  by (cases a; cases b) (auto simp: units_def split: if_splits)

lemma flt_irrefl: "\<not> flt a a"
  by (cases a) (auto simp: units_def)












section \<open>Properties of the steps of a frame\<close>

subsection \<open>Collision resolution\<close>

lemma not_collision_test_jump: "\<not> collision_test pf (jump pl)"
  by (simp add: collision_test_def jump_def getVelocityY_def float32_eval)

lemma handleCollisions_loop_result:
  "handleCollisions_loop ps g =
     (if \<exists>pf \<in> set ps. collision_test pf (player g)
      then g\<lparr>player := jump (player g), jumpSound_plays := Suc (jumpSound_plays g)\<rparr>
      else g)"
proof (induction ps arbitrary: g)
  case Nil
  show ?case by simp
next
  case (Cons pf rest)
  show ?case
  proof (cases "collision_test pf (player g)")
    case True
    then show ?thesis
      by (simp add: Cons.IH handleCollisions_body_def not_collision_test_jump)
  next
    case False
    then show ?thesis
      by (simp add: Cons.IH handleCollisions_body_def)
  qed
qed

subsection \<open>The platform update\<close>

lemma updatePlatforms_body_result:
  assumes "updatePlatforms_body env pf g = Inr (pf', g')"
  shows "g' = (if recycles (dy (player g)) pf
               then g\<lparr>rand_calls := Suc (rand_calls g), score := score g + 1\<rparr> else g)"
    and "pf' = (if recycles (dy (player g)) pf
                then setPosition (float32_of_int (int (rand_seq env (rand_calls g) mod 500)))
                       (float32_of_int 0) (Platform_move (dy (player g)) pf)
                else Platform_move (dy (player g)) pf)"
  using assms
  by (auto simp: updatePlatforms_body_def Let_def rand_def recycles_def getVelocityY_def
      getPosition_def split: if_splits)

lemma updatePlatforms_body_total:
  "score g < INT_MAX \<Longrightarrow> \<exists>pf' g'. updatePlatforms_body env pf g = Inr (pf', g')"
  by (auto simp: updatePlatforms_body_def Let_def rand_def)

lemma updatePlatforms_loop_result:
  assumes "updatePlatforms_loop env ps g = Inr (ps', g')"
  shows "g' = g\<lparr>rand_calls := rand_calls g + length (filter (recycles (dy (player g))) ps),
                 score := score g + int (length (filter (recycles (dy (player g))) ps))\<rparr>
         \<and> length ps' = length ps"
  using assms
proof (induction ps arbitrary: g ps' g')
  case Nil
  then show ?case by simp
next
  case (Cons pf rest)
  from Cons.prems obtain pf1 g1 rest1 where
    b: "updatePlatforms_body env pf g = Inr (pf1, g1)" and
    l: "updatePlatforms_loop env rest g1 = Inr (rest1, g')" and
    p: "ps' = pf1 # rest1"
    by (auto split: sum.splits prod.splits)
  note r = updatePlatforms_body_result(1)[OF b]
  have pl: "player g1 = player g" by (simp add: r)
  from Cons.IH[OF l] show ?case
    by (simp add: p pl r)
qed

lemma updatePlatforms_loop_total:
  "score g + int (length ps) \<le> INT_MAX \<Longrightarrow> \<exists>ps' g'. updatePlatforms_loop env ps g = Inr (ps', g')"
proof (induction ps arbitrary: g)
  case Nil
  show ?case by simp
next
  case (Cons pf rest)
  then have "score g < INT_MAX" by simp
  from updatePlatforms_body_total[OF this] obtain pf1 g1 where
    b: "updatePlatforms_body env pf g = Inr (pf1, g1)" by blast
  have "score g1 \<le> score g + 1"
    using updatePlatforms_body_result(1)[OF b] by (simp split: if_splits)
  with Cons.prems have "score g1 + int (length rest) \<le> INT_MAX" by simp
  from Cons.IH[OF this] obtain rest1 g2 where "updatePlatforms_loop env rest g1 = Inr (rest1, g2)"
    by blast
  with b show ?case by simp
qed

lemma updatePlatforms_result:
  assumes "updatePlatforms env g = Inr g'"
  shows "\<exists>ps'. length ps' = length (platforms g) \<and>
     g' = updateScoreText (g\<lparr>
            rand_calls := rand_calls g + length (filter (recycles (dy (player g))) (platforms g)),
            score := score g + int (length (filter (recycles (dy (player g))) (platforms g))),
            platforms := ps'\<rparr>)"
proof -
  from assms obtain ps' g1 where l: "updatePlatforms_loop env (platforms g) g = Inr (ps', g1)"
    and g': "g' = updateScoreText (g1\<lparr>platforms := ps'\<rparr>)"
    by (auto simp: updatePlatforms_def split: sum.splits prod.splits)
  from updatePlatforms_loop_result[OF l] show ?thesis
    by (intro exI[of _ ps']) (simp add: g')
qed

lemma updatePlatforms_total:
  "score g + int (length (platforms g)) \<le> INT_MAX \<Longrightarrow> \<exists>g'. updatePlatforms env g = Inr g'"
  using updatePlatforms_loop_total[of g "platforms g" env]
  by (auto simp: updatePlatforms_def)

subsection \<open>The event loop\<close>

lemma handle_event_playing:
  "\<not> gameOver g \<Longrightarrow>
   handle_event env e g = (if type_Closed e then g\<lparr>window_isOpen := False\<rparr> else g)"
  by (simp add: handle_event_def Let_def)

lemma pollEvents_playing:
  "\<not> gameOver g \<Longrightarrow>
   pollEvents env es g = g\<lparr>window_isOpen := window_isOpen g \<and> \<not> list_ex type_Closed es\<rparr>"
proof (induction es arbitrary: g)
  case Nil
  show ?case by simp
next
  case (Cons e es)
  then show ?case by (simp add: handle_event_playing)
qed

subsection \<open>The record of steps\<close>

lemma steps_handleInput: "steps (handleInput inp g) = steps g"
  by (simp add: handleInput_def Let_def)

lemma steps_fall_out_check: "steps (fall_out_check g) = steps g"
  by (simp add: fall_out_check_def)

lemma steps_scroll_check: "steps (scroll_check g) = steps g"
  by (simp add: scroll_check_def Let_def)

lemma steps_handleCollisions: "steps (handleCollisions g) = steps g"
  by (simp add: handleCollisions_def handleCollisions_loop_result)

lemma steps_updatePlatforms: "updatePlatforms env g = Inr g' \<Longrightarrow> steps g' = steps g"
  by (auto dest!: updatePlatforms_result simp: updateScoreText_def)

lemma steps_draw: "steps (draw g) = steps g"
  by (simp add: draw_def)

lemma steps_reached: "steps (reached st g) = steps g @ [st]"
  by (simp add: reached_def)

lemma steps_update_player: "steps (update_player g) = steps g"
  by (simp add: update_player_def)

lemmas steps_simps = steps_handleInput steps_fall_out_check steps_scroll_check
  steps_handleCollisions steps_draw steps_reached steps_update_player

text \<open>The steps before \<^verbatim>\<open>updatePlatforms\<close> change neither the score nor the number of platforms.\<close>

lemma score_before_updatePlatforms:
  "score (scroll_check (reached s4 (fall_out_check (reached s3 (update_player (reached s2
     (handleInput inp (reached s1 g)))))))) = score g"
  by (simp add: scroll_check_def fall_out_check_def update_player_def reached_def
      handleInput_def Let_def)

lemma length_before_updatePlatforms:
  "length (platforms (scroll_check (reached s4 (fall_out_check (reached s3 (update_player (reached s2
     (handleInput inp (reached s1 g))))))))) = length (platforms g)"
  by (simp add: scroll_check_def fall_out_check_def update_player_def reached_def
      handleInput_def Let_def)

subsection \<open>Frames and the game-over flag\<close>

lemma float32_of_int_700: "float32_of_int 700 = Fin False (700 * 2 ^ 149)"
  by (simp add: float32_eval)

lemma float32_of_int_300: "float32_of_int 300 = Fin False (300 * 2 ^ 149)"
  by (simp add: float32_eval)

lemma fgt_700_not_flt_300: "fgt a (float32_of_int 700) \<Longrightarrow> \<not> flt a (float32_of_int 300)"
  by (cases a) (auto simp: fgt_def float32_of_int_700 float32_of_int_300 units_def split: if_splits)

lemma handle_event_gameOver:
  "gameOver g \<Longrightarrow> \<not> key_R e \<Longrightarrow>
   handle_event env e g = g\<lparr>window_isOpen := window_isOpen g \<and> \<not> (type_Closed e \<or> key_Escape e)\<rparr>"
  by (auto simp: handle_event_def Let_def)

lemma pollEvents_gameOver:
  "gameOver g \<Longrightarrow> \<not> list_ex key_R es \<Longrightarrow>
   pollEvents env es g =
     g\<lparr>window_isOpen := window_isOpen g \<and> \<not> list_ex (\<lambda>e. type_Closed e \<or> key_Escape e) es\<rparr>"
proof (induction es arbitrary: g)
  case Nil
  show ?case by simp
next
  case (Cons e es)
  then show ?case by (auto simp: handle_event_gameOver)
qed

lemma frame_gameOver:
  assumes "gameOver g" and "\<not> list_ex key_R (events inp)"
  shows "frame env inp g =
     Inr (g\<lparr>window_isOpen := window_isOpen g
               \<and> \<not> list_ex (\<lambda>e. type_Closed e \<or> key_Escape e) (events inp),
            steps := steps g @ [Step_draw],
            displayed := [Draw_sBackground, Draw_gameOverText, Draw_retryText]\<rparr>)"
  using assms by (simp add: frame_def Let_def pollEvents_gameOver draw_def reached_def)

lemma gameOver_handleCollisions: "gameOver (handleCollisions g) = gameOver g"
  by (simp add: handleCollisions_def handleCollisions_loop_result)

lemma gameOver_updatePlatforms: "updatePlatforms env g = Inr g' \<Longrightarrow> gameOver g' = gameOver g"
  by (auto dest!: updatePlatforms_result simp: updateScoreText_def)

lemma gameOver_scroll_check: "gameOver (scroll_check g) = gameOver g"
  by (simp add: scroll_check_def Let_def)

lemma scroll_check_fallen:
  "fgt (y (getPosition (player g))) (float32_of_int 700) \<Longrightarrow> scroll_check g = g"
  by (simp add: scroll_check_def fgt_700_not_flt_300)

lemma platforms_handleCollisions: "platforms (handleCollisions g) = platforms g"
  by (simp add: handleCollisions_def handleCollisions_loop_result)

lemma score_handleCollisions: "score (handleCollisions g) = score g"
  by (simp add: handleCollisions_def handleCollisions_loop_result)

lemma player_before_fall_out:
  "player (update_player (reached s2 (handleInput inp (reached s1 g))))
   = player (update_player (handleInput inp g))"
  by (simp add: update_player_def reached_def handleInput_def Let_def)

lemma frame_playing:
  assumes "\<not> gameOver (pollEvents env (events inp) g)"
    and "updatePlatforms env (reached Step_updatePlatforms
       (scroll_check (reached Step_scroll_check
         (fall_out_check (reached Step_fall_out_check
           (update_player (reached Step_player_update
             (handleInput inp (reached Step_handleInput
               (pollEvents env (events inp) g))))))))))
       = Inr g5"
  shows "frame env inp g
     = Inr (draw (reached Step_draw (handleCollisions (reached Step_handleCollisions g5))))"
  using assms by (simp add: frame_def playing_update_def Let_def)

lemma frame_playing_gameOver:
  assumes "\<not> gameOver (pollEvents env (events inp) g)"
    and "frame env inp g = Inr g7"
  shows "gameOver g7 \<longleftrightarrow>
     fgt (y (getPosition (player (update_player (handleInput inp (pollEvents env (events inp) g))))))
       (float32_of_int 700)"
proof -
  define g2 where "g2 = update_player (reached Step_player_update
             (handleInput inp (reached Step_handleInput (pollEvents env (events inp) g))))"
  from assms obtain g5 where
    u: "updatePlatforms env (reached Step_updatePlatforms
       (scroll_check (reached Step_scroll_check
         (fall_out_check (reached Step_fall_out_check g2))))) = Inr g5"
    and g7: "g7 = draw (reached Step_draw (handleCollisions (reached Step_handleCollisions g5)))"
    by (auto simp: frame_def playing_update_def Let_def g2_def split: sum.splits)
  have n2: "\<not> gameOver g2"
    using assms(1) by (simp add: g2_def update_player_def reached_def handleInput_def Let_def)
  have "gameOver g7 = gameOver g5"
    by (simp add: g7 draw_def reached_def gameOver_handleCollisions)
  also have "\<dots> = gameOver (fall_out_check (reached Step_fall_out_check g2))"
    using gameOver_updatePlatforms[OF u] by (simp add: reached_def gameOver_scroll_check)
  also have "\<dots> = fgt (y (getPosition (player g2))) (float32_of_int 700)"
    using n2 by (simp add: fall_out_check_def reached_def)
  finally show ?thesis by (simp add: g2_def player_before_fall_out)
qed

lemma run_gameOver:
  assumes "gameOver g" and "list_all (\<lambda>inp. \<not> list_ex key_R (events inp)) inps"
  shows "\<exists>g' n. run env inps g = Inr g' \<and> gameOver g' \<and> player g' = player g
     \<and> platforms g' = platforms g \<and> score g' = score g
     \<and> steps g' = steps g @ replicate n Step_draw"
  using assms
proof (induction inps arbitrary: g)
  case Nil
  then show ?case by (auto intro: exI[of _ 0])
next
  case (Cons inp inps)
  show ?case
  proof (cases "window_isOpen g")
    case False
    then show ?thesis by (auto simp: Cons.prems intro: exI[of _ 0])
  next
    case True
    define g1 where "g1 = g\<lparr>window_isOpen := window_isOpen g
               \<and> \<not> list_ex (\<lambda>e. type_Closed e \<or> key_Escape e) (events inp),
            steps := steps g @ [Step_draw],
            displayed := [Draw_sBackground, Draw_gameOverText, Draw_retryText]\<rparr>"
    from Cons.prems have f: "frame env inp g = Inr g1"
      by (simp add: frame_gameOver g1_def)
    have "gameOver g1" using Cons.prems by (simp add: g1_def)
    moreover have "list_all (\<lambda>inp. \<not> list_ex key_R (events inp)) inps"
      using Cons.prems by simp
    ultimately obtain g' n where r: "run env inps g1 = Inr g'" "gameOver g'"
      "player g' = player g1" "platforms g' = platforms g1" "score g' = score g1"
      "steps g' = steps g1 @ replicate n Step_draw"
      using Cons.IH by blast
    have "steps g' = steps g @ replicate (Suc n) Step_draw"
      by (simp add: r g1_def replicate_app_Cons_same)
    with r True f show ?thesis
      by (intro exI[of _ g'] exI[of _ "Suc n"]) (simp add: g1_def)
  qed
qed

lemma updatePlatforms_loop_none:
  "\<forall>pf \<in> set ps. \<not> recycles (dy (player g)) pf \<Longrightarrow>
   updatePlatforms_loop env ps g = Inr (map (Platform_move (dy (player g))) ps, g)"
  by (induction ps)
    (simp_all add: updatePlatforms_body_def recycles_def getPosition_def getVelocityY_def Let_def)

lemma updatePlatforms_none:
  "\<forall>pf \<in> set (platforms g). \<not> recycles (dy (player g)) pf \<Longrightarrow>
   updatePlatforms env g
   = Inr (updateScoreText (g\<lparr>platforms := map (Platform_move (dy (player g))) (platforms g)\<rparr>))"
  by (simp add: updatePlatforms_def updatePlatforms_loop_none)

lemma falling_fact:
  "fgt (fadd (float32_of_int 699) (fadd (float32_of_int 5) lit_0_2f)) (float32_of_int 700)"
  by (simp add: float32_eval)

lemma falling_platform_stays:
  "\<not> fgt (fsub (float32_of_int 100) (fadd (float32_of_int 5) lit_0_2f)) (float32_of_int 700)"
  by (simp add: float32_eval)

lemma falling_platform_moved:
  "flt (fsub (float32_of_int 100) (fadd (float32_of_int 5) lit_0_2f)) (float32_of_int 100)"
  by (simp add: float32_eval)

lemma pollEvents_example: "pollEvents env (events example_input) g = g"
  by (simp add: example_input_def)

lemma handleInput_example: "handleInput example_input g = g"
  by (simp add: example_input_def handleInput_def)

lemma falling_updated:
  "update_player (reached Step_player_update (handleInput example_input
     (reached Step_handleInput (pollEvents example_env (events example_input) example_falling))))
   = example_falling\<lparr>
       player := \<lparr>position = \<lparr>x = float32_of_int 200,
                      y = fadd (float32_of_int 699) (fadd (float32_of_int 5) lit_0_2f)\<rparr>,
                   dx = float32_of_int 0, dy = fadd (float32_of_int 5) lit_0_2f\<rparr>,
       steps := [Step_handleInput, Step_player_update]\<rparr>"
  by (simp add: pollEvents_example handleInput_example update_player_def Player_update_def
      applyGravity_def reached_def example_falling_def example_game_def Let_def)

lemma frame_playing_total:
  assumes "\<not> gameOver (pollEvents env (events inp) g)"
    and "score (pollEvents env (events inp) g)
         + int (length (platforms (pollEvents env (events inp) g))) \<le> INT_MAX"
  shows "\<exists>g7. frame env inp g = Inr g7"
proof -
  define g4 where "g4 = scroll_check (reached Step_scroll_check
         (fall_out_check (reached Step_fall_out_check
           (update_player (reached Step_player_update
             (handleInput inp (reached Step_handleInput (pollEvents env (events inp) g))))))))"
  have sc: "score g4 = score (pollEvents env (events inp) g)"
    and len: "length (platforms g4) = length (platforms (pollEvents env (events inp) g))"
    by (simp_all add: g4_def score_before_updatePlatforms length_before_updatePlatforms)
  have "score (reached Step_updatePlatforms g4)
        + int (length (platforms (reached Step_updatePlatforms g4))) \<le> INT_MAX"
    using assms(2) by (simp add: reached_def sc len)
  from updatePlatforms_total[OF this] obtain g5 where
    "updatePlatforms env (reached Step_updatePlatforms g4) = Inr g5" by blast
  then show ?thesis
    using frame_playing[OF assms(1), of g5] by (simp add: g4_def)
qed

lemma handle_event_clears_flag:
  assumes "gameOver g" and "\<not> gameOver (handle_event env e g)"
  shows "key_R e \<and> handle_event env e g
           = resetGame env (if type_Closed e then g\<lparr>window_isOpen := False\<rparr> else g)"
  using assms by (auto simp: handle_event_def Let_def split: if_splits)

lemma example_fallen_eq:
  "example_fallen = example_falling\<lparr>
       player := \<lparr>position = \<lparr>x = float32_of_int 200,
                      y = fadd (float32_of_int 699) (fadd (float32_of_int 5) lit_0_2f)\<rparr>,
                   dx = float32_of_int 0, dy = fadd (float32_of_int 5) lit_0_2f\<rparr>,
       steps := [Step_handleInput, Step_player_update, Step_fall_out_check],
       gameOver := True\<rparr>"
  unfolding example_fallen_def falling_updated
  by (simp add: fall_out_check_def reached_def getPosition_def falling_fact)

lemma example_fallen_update:
  "updatePlatforms example_env
     (reached Step_updatePlatforms (scroll_check (reached Step_scroll_check example_fallen)))
   = Inr (example_fallen\<lparr>
       steps := [Step_handleInput, Step_player_update, Step_fall_out_check, Step_scroll_check,
                 Step_updatePlatforms],
       platforms := [Platform_new (float32_of_int 100)
                       (fsub (float32_of_int 100) (fadd (float32_of_int 5) lit_0_2f))]\<rparr>)"
proof -
  have sc: "scroll_check (reached Step_scroll_check example_fallen)
            = reached Step_scroll_check example_fallen"
    by (rule scroll_check_fallen)
      (simp add: example_fallen_eq reached_def getPosition_def falling_fact)
  have none: "\<forall>pf \<in> set (platforms (reached Step_updatePlatforms
                 (reached Step_scroll_check example_fallen))).
              \<not> recycles (dy (player (reached Step_updatePlatforms
                 (reached Step_scroll_check example_fallen)))) pf"
    by (simp add: example_fallen_eq reached_def example_falling_def example_game_def
        example_platform_def recycles_def Platform_move_def Platform_new_def
        falling_platform_stays)
  show ?thesis
    unfolding sc updatePlatforms_none[OF none]
    by (simp add: example_fallen_eq reached_def example_falling_def example_game_def
        example_platform_def Platform_move_def Platform_new_def updateScoreText_def
        show_int_def show_nat.simps)
qed

lemma fneg_8: "fneg (float32_of_int 8) = Fin True (8 * 2 ^ 149)"
  using float32_of_int_small[of 8] by simp

lemma overlap_facts:
  "fgt (fadd (float32_of_int 200) (float32_of_int 50)) (float32_of_int 200)"
  "flt (fadd (float32_of_int 200) (float32_of_int 20)) (fadd (float32_of_int 200) (float32_of_int 68))"
  "fgt (fadd (float32_of_int 100) (float32_of_int 70)) (float32_of_int 165)"
  "flt (fadd (float32_of_int 100) (float32_of_int 70)) (fadd (float32_of_int 165) (float32_of_int 14))"
  "fgt (fadd (float32_of_int 200) (float32_of_int 50)) (float32_of_int 210)"
  "flt (fadd (float32_of_int 200) (float32_of_int 20)) (fadd (float32_of_int 210) (float32_of_int 68))"
  "fgt (fadd (float32_of_int 100) (float32_of_int 70)) (float32_of_int 168)"
  "flt (fadd (float32_of_int 100) (float32_of_int 70)) (fadd (float32_of_int 168) (float32_of_int 14))"
  "fgt (float32_of_int 3) (float32_of_int 0)"
  "flt (fneg (float32_of_int 3)) (float32_of_int 0)"
  by (simp_all add: float32_eval)

lemma collision_test_descending:
  "collision_test (example_platform 200 165) (player example_descending)"
  "collision_test (example_platform 210 168) (player example_descending)"
  by (simp_all add: collision_test_def example_descending_def example_game_def
      example_platform_def Platform_new_def getPosition_def getVelocityY_def overlap_facts)

lemma emplace_random_eq:
  "emplace_random env g =
     g\<lparr>rand_calls := rand_calls g + 2,
       platforms := platforms g @ [random_platform env (rand_calls g)]\<rparr>"
  by (simp add: emplace_random_def rand_def random_platform_def Let_def)

lemma resetGame_loop_eq:
  "resetGame_loop env i g =
     g\<lparr>rand_calls := rand_calls g + 2 * nat (10 - i),
       platforms := platforms g @ random_platforms env (rand_calls g) (nat (10 - i))\<rparr>"
proof (induction env i g rule: resetGame_loop.induct)
  case (1 env i g)
  show ?case
  proof (cases "i < 10")
    case True
    then have n: "nat (10 - i) = Suc (nat (10 - (i + 1)))" by simp
    have "resetGame_loop env i g = resetGame_loop env (i + 1) (emplace_random env g)"
      using True by (subst resetGame_loop.simps) simp
    also note 1[OF True]
    finally show ?thesis
      by (simp add: emplace_random_eq n)
  next
    case False
    then show ?thesis by (subst resetGame_loop.simps) simp
  qed
qed

lemma length_random_platforms: "length (random_platforms env c n) = n"
  by (induction n arbitrary: c) simp_all

lemma float32_of_nat_range:
  assumes "n < m" and "m < 2 ^ 24"
  shows "\<not> flt (float32_of_int (int n)) (float32_of_int 0)
         \<and> flt (float32_of_int (int n)) (float32_of_int (int m))"
proof -
  have n: "float32_of_int (int n) = Fin False (n * 2 ^ 149)"
    using assms by (intro float32_of_nat_small) simp
  have m: "float32_of_int (int m) = Fin False (m * 2 ^ 149)"
    using assms by (intro float32_of_nat_small)
  have "n * 2 ^ 149 < m * (2::nat) ^ 149" using assms(1) by (simp only: mult_less_cancel2) simp
  then show ?thesis
    unfolding n m float32_of_int_0 by (simp add: units_def)
qed

lemma in_window_random_platform: "in_window (position (random_platform env c))"
proof -
  have a: "\<not> flt (float32_of_int (int (r mod 500))) (float32_of_int 0)
         \<and> flt (float32_of_int (int (r mod 500))) (float32_of_int 500)" for r :: nat
    using float32_of_nat_range[of "r mod 500" 500] by simp
  have b: "\<not> flt (float32_of_int (int (r mod 700))) (float32_of_int 0)
         \<and> flt (float32_of_int (int (r mod 700))) (float32_of_int 700)" for r :: nat
    using float32_of_nat_range[of "r mod 700" 700] by simp
  show ?thesis
    using a b by (simp add: in_window_def random_platform_def Platform_new_def)
qed

lemma in_window_random_platforms:
  "list_all (\<lambda>pf. in_window (position pf)) (random_platforms env c n)"
  by (induction n arbitrary: c) (simp_all add: in_window_random_platform)

lemma show_int_0: "show_int 0 = ''0''"
  by (simp add: show_int_def show_nat.simps)

lemma resetGame_eq:
  "resetGame env g =
     g\<lparr>player := \<lparr>position = \<lparr>x = float32_of_int 200, y = float32_of_int 200\<rparr>,
                   dx = float32_of_int 0, dy = float32_of_int 0\<rparr>,
       score := 0, gameOver := False,
       rand_calls := rand_calls g + 20,
       platforms := random_platforms env (rand_calls g) 10,
       scoreText := ''Score: 0''\<rparr>"
  by (simp add: resetGame_def resetGame_loop_eq reset_def updateScoreText_def show_int_0 Let_def)

lemma length_platforms_resetGame: "length (platforms (resetGame env g)) = 10"
  by (simp add: resetGame_eq length_random_platforms)

lemma length_platforms_handle_event:
  "length (platforms (handle_event env e g)) = length (platforms g)
   \<or> length (platforms (handle_event env e g)) = 10"
  by (simp add: handle_event_def Let_def length_platforms_resetGame)

lemma length_platforms_pollEvents:
  "length (platforms (pollEvents env es g)) = length (platforms g)
   \<or> length (platforms (pollEvents env es g)) = 10"
proof (induction es arbitrary: g)
  case Nil
  show ?case by simp
next
  case (Cons e es)
  from Cons.IH[of "handle_event env e g"] length_platforms_handle_event[of env e g]
  show ?case by auto
qed

lemma length_platforms_frame:
  assumes "frame env inp g = Inr g7"
  shows "length (platforms g7) = length (platforms (pollEvents env (events inp) g))"
proof (cases "gameOver (pollEvents env (events inp) g)")
  case True
  with assms show ?thesis by (auto simp: frame_def Let_def draw_def reached_def)
next
  case False
  define g4 where "g4 = scroll_check (reached Step_scroll_check
         (fall_out_check (reached Step_fall_out_check
           (update_player (reached Step_player_update
             (handleInput inp (reached Step_handleInput (pollEvents env (events inp) g))))))))"
  have len: "length (platforms g4) = length (platforms (pollEvents env (events inp) g))"
    by (simp add: g4_def length_before_updatePlatforms)
  from assms False obtain g5 where
    u: "updatePlatforms env (reached Step_updatePlatforms g4) = Inr g5"
    and g7: "g7 = draw (reached Step_draw (handleCollisions (reached Step_handleCollisions g5)))"
    by (auto simp: frame_def playing_update_def Let_def g4_def split: sum.splits)
  from updatePlatforms_result[OF u] have "length (platforms g5) = length (platforms g4)"
    by (auto simp: updateScoreText_def reached_def)
  then show ?thesis
    by (simp add: g7 draw_def reached_def platforms_handleCollisions len)
qed

lemma ten_platforms_frame:
  "length (platforms g) = 10 \<Longrightarrow> frame env inp g = Inr g7 \<Longrightarrow> length (platforms g7) = 10"
  using length_platforms_frame[of env inp g g7] length_platforms_pollEvents[of env "events inp" g]
  by auto

lemma ten_platforms_run:
  "length (platforms g) = 10 \<Longrightarrow> run env inps g = Inr g' \<Longrightarrow> length (platforms g') = 10"
proof (induction inps arbitrary: g)
  case Nil
  then show ?case by simp
next
  case (Cons inp inps)
  then show ?case
    by (auto split: if_splits sum.splits dest: ten_platforms_frame)
qed

lemma ten_platforms_loaded: "length (platforms (Game_new env True True)) = 10"
  by (simp add: Game_new_def length_platforms_resetGame)

lemma start_no_fall:
  "\<not> fgt (fadd (float32_of_int 200) (fadd (float32_of_int 0) lit_0_2f)) (float32_of_int 700)"
  by (simp add: float32_eval)

lemma frame_playing_score:
  assumes "\<not> gameOver (pollEvents env (events inp) g)"
    and "frame env inp g = Inr g7"
  shows "score g7 = score (pollEvents env (events inp) g)
     + int (length (filter
         (recycles (dy (player (after_scroll_check inp (pollEvents env (events inp) g)))))
         (platforms (after_scroll_check inp (pollEvents env (events inp) g)))))"
proof -
  define g4 where "g4 = after_scroll_check inp (pollEvents env (events inp) g)"
  have sc: "score g4 = score (pollEvents env (events inp) g)"
    by (simp add: g4_def after_scroll_check_def score_before_updatePlatforms)
  from assms obtain g5 where
    u: "updatePlatforms env (reached Step_updatePlatforms g4) = Inr g5"
    and g7: "g7 = draw (reached Step_draw (handleCollisions (reached Step_handleCollisions g5)))"
    by (auto simp: frame_def playing_update_def Let_def g4_def after_scroll_check_def
        split: sum.splits)
  from updatePlatforms_result[OF u]
  have "score g5 = score g4 + int (length (filter (recycles (dy (player g4))) (platforms g4)))"
    by (auto simp: updateScoreText_def reached_def)
  then have "score g7 = score (pollEvents env (events inp) g)
     + int (length (filter (recycles (dy (player g4))) (platforms g4)))"
    by (simp add: g7 draw_def reached_def score_handleCollisions sc)
  then show ?thesis by (simp only: g4_def)
qed

lemma low_platform_recycles:
  "fgt (fsub (float32_of_int 705) (float32_of_int 0)) (float32_of_int 700)"
  by (simp add: float32_eval)

lemma beyond_platform_width:
  "flt (float32_of_int (window_width - platform_width)) (float32_of_int 450)"
  by (simp add: window_width_def platform_width_def float32_eval)

lemma low_platform_body:
  "updatePlatforms_body example_env (example_platform 10 705) example_low_platform
   = Inr (example_platform 450 0, example_low_platform\<lparr>rand_calls := 1, score := 1\<rparr>)"
  by (simp add: updatePlatforms_body_def example_low_platform_def example_game_def
      example_platform_def example_env_def Platform_move_def Platform_new_def getPosition_def
      getVelocityY_def setPosition_def rand_def INT_MAX_def Let_def low_platform_recycles)

lemma scroll_check_eq:
  "scroll_check g =
     (if flt (y (position (player g))) (float32_of_int 300)
      then g\<lparr>player := (player g)\<lparr>position :=
                  \<lparr>x = x (position (player g)), y = float32_of_int 300\<rparr>\<rparr>,
             platforms := map (\<lambda>pf. pf\<lparr>position := (position pf)\<lparr>y :=
                  fadd (y (position pf))
                    (fsub (float32_of_int 300) (y (position (player g))))\<rparr>\<rparr>) (platforms g)\<rparr>
      else g)"
  by (simp add: scroll_check_def getPosition_def setPosition_def Platform_move_def fsub_fneg
      Let_def)

lemma scroll_offset_positive:
  assumes "flt a (float32_of_int 300)"
  shows "fgt (fsub (float32_of_int 300) a) (float32_of_int 0)"
proof -
  have c: "float32_of_int 300 = Fin False (300 * 2 ^ 149)"
    using float32_of_int_small[of 300] by simp
  show ?thesis
    using assms unfolding c by (rule fsub_positive)
qed

lemma high_facts:
  "flt (float32_of_int 250) (float32_of_int 300)"
  "fsub (float32_of_int 300) (float32_of_int 250) = float32_of_int 50"
  "fadd (float32_of_int 100) (float32_of_int 50) = float32_of_int 150"
  "fsub (float32_of_int 100) (float32_of_int 50) = float32_of_int 50"
  "flt (float32_of_int 50) (float32_of_int 100)"
  "flt (float32_of_int 100) (float32_of_int 150)"
  by (simp_all add: float32_eval)

lemma valid_100: "valid_float32 (float32_of_int 100)"
  by (simp add: float32_eval)











lemma frame_playing_cases:
  assumes "\<not> gameOver (pollEvents env (events inp) g)"
    and "frame env inp g = Inr g7"
  shows "\<exists>g5.
     updatePlatforms env (reached Step_updatePlatforms
       (scroll_check (reached Step_scroll_check
         (fall_out_check (reached Step_fall_out_check
           (update_player (reached Step_player_update
             (handleInput inp (reached Step_handleInput
               (pollEvents env (events inp) g))))))))))
       = Inr g5
     \<and> g7 = draw (reached Step_draw (handleCollisions (reached Step_handleCollisions g5)))"
  using assms by (auto simp: frame_def playing_update_def Let_def split: sum.splits)

lemma pollEvents_retry:
  "pollEvents example_env (events example_retry) example_over = resetGame example_env example_over"
  by (simp add: example_retry_def handle_event_def example_over_def Let_def)

lemma Platform_move_eq:
  "Platform_move d (pf :: Platform)
   = \<lparr>position = \<lparr>x = x (position pf), y = fsub (y (position pf)) d\<rparr>\<rparr>"
  by (simp add: Platform_move_def)

lemma Platform_setPosition_eq:
  "setPosition a b (pf :: Platform) = \<lparr>position = \<lparr>x = a, y = b\<rparr>\<rparr>"
  by (simp add: setPosition_def)

lemma updatePlatforms_loop_nth:
  assumes "updatePlatforms_loop env ps g = Inr (ps', g')" and "i < length ps"
  shows "ps' ! i =
     (if recycles (dy (player g)) (ps ! i)
      then \<lparr>position =
             \<lparr>x = float32_of_int (int (rand_seq env
                    (rand_calls g + length (filter (recycles (dy (player g))) (take i ps)))
                    mod 500)),
              y = float32_of_int 0\<rparr>\<rparr>
      else \<lparr>position =
             \<lparr>x = x (position (ps ! i)), y = fsub (y (position (ps ! i))) (dy (player g))\<rparr>\<rparr>)"
  using assms
proof (induction ps arbitrary: g ps' g' i)
  case Nil
  then show ?case by simp
next
  case (Cons pf rest)
  from Cons.prems(1) obtain pf1 g1 rest1 where
    b: "updatePlatforms_body env pf g = Inr (pf1, g1)" and
    l: "updatePlatforms_loop env rest g1 = Inr (rest1, g')" and
    p: "ps' = pf1 # rest1"
    by (auto split: sum.splits prod.splits)
  note r1 = updatePlatforms_body_result(1)[OF b]
  note r2 = updatePlatforms_body_result(2)[OF b]
  have pl: "player g1 = player g" by (simp add: r1)
  show ?case
  proof (cases i)
    case 0
    then show ?thesis
      by (simp add: p r2 Platform_move_eq Platform_setPosition_eq)
  next
    case (Suc j)
    with Cons.prems(2) have j: "j < length rest" by simp
    have c: "rand_calls g1 + length (filter (recycles (dy (player g))) (take j rest))
             = rand_calls g + length (filter (recycles (dy (player g))) (take i (pf # rest)))"
      by (simp add: r1 Suc)
    from Cons.IH[OF l j] show ?thesis
      by (simp add: p Suc pl c[unfolded Suc])
  qed
qed

lemma updatePlatforms_loop_platforms:
  assumes "updatePlatforms_loop env ps g = Inr (ps', g')"
  shows "ps' =
     map (\<lambda>i. if recycles (dy (player g)) (ps ! i)
               then \<lparr>position =
                      \<lparr>x = float32_of_int (int (rand_seq env
                             (rand_calls g + length (filter (recycles (dy (player g))) (take i ps)))
                             mod 500)),
                       y = float32_of_int 0\<rparr>\<rparr>
               else \<lparr>position =
                      \<lparr>x = x (position (ps ! i)),
                       y = fsub (y (position (ps ! i))) (dy (player g))\<rparr>\<rparr>)
       [0..<length ps]"
proof (rule nth_equalityI)
  show "length ps' = length (map (\<lambda>i. if recycles (dy (player g)) (ps ! i)
               then \<lparr>position =
                      \<lparr>x = float32_of_int (int (rand_seq env
                             (rand_calls g + length (filter (recycles (dy (player g))) (take i ps)))
                             mod 500)),
                       y = float32_of_int 0\<rparr>\<rparr>
               else \<lparr>position =
                      \<lparr>x = x (position (ps ! i)),
                       y = fsub (y (position (ps ! i))) (dy (player g))\<rparr>\<rparr>)
       [0..<length ps])"
    using updatePlatforms_loop_result[OF assms] by simp
next
  fix i
  assume "i < length ps'"
  then have i: "i < length ps" using updatePlatforms_loop_result[OF assms] by simp
  show "ps' ! i = map (\<lambda>i. if recycles (dy (player g)) (ps ! i)
               then \<lparr>position =
                      \<lparr>x = float32_of_int (int (rand_seq env
                             (rand_calls g + length (filter (recycles (dy (player g))) (take i ps)))
                             mod 500)),
                       y = float32_of_int 0\<rparr>\<rparr>
               else \<lparr>position =
                      \<lparr>x = x (position (ps ! i)),
                       y = fsub (y (position (ps ! i))) (dy (player g))\<rparr>\<rparr>)
       [0..<length ps] ! i"
    using updatePlatforms_loop_nth[OF assms i] i by simp
qed

lemma updatePlatforms_platforms:
  assumes "updatePlatforms env g = Inr g'"
  shows "platforms g' =
     map (\<lambda>i. if recycles (dy (player g)) (platforms g ! i)
               then \<lparr>position =
                      \<lparr>x = float32_of_int (int (rand_seq env
                             (rand_calls g
                              + length (filter (recycles (dy (player g))) (take i (platforms g))))
                             mod 500)),
                       y = float32_of_int 0\<rparr>\<rparr>
               else \<lparr>position =
                      \<lparr>x = x (position (platforms g ! i)),
                       y = fsub (y (position (platforms g ! i))) (dy (player g))\<rparr>\<rparr>)
       [0..<length (platforms g)]"
proof -
  from assms obtain ps' g1 where l: "updatePlatforms_loop env (platforms g) g = Inr (ps', g1)"
    and g': "g' = updateScoreText (g1\<lparr>platforms := ps'\<rparr>)"
    by (auto simp: updatePlatforms_def split: sum.splits prod.splits)
  have "platforms g' = ps'" by (simp add: g' updateScoreText_def)
  with updatePlatforms_loop_platforms[OF l] show ?thesis by (simp only:)
qed

lemma frame_playing_platforms:
  assumes n: "\<not> gameOver (pollEvents env (events inp) g)"
    and f: "frame env inp g = Inr g7"
  shows "platforms g7 =
     map (\<lambda>i. if recycles (dy (player (after_scroll_check inp (pollEvents env (events inp) g))))
                    (platforms (after_scroll_check inp (pollEvents env (events inp) g)) ! i)
               then \<lparr>position =
                      \<lparr>x = float32_of_int (int (rand_seq env
                             (rand_calls (after_scroll_check inp (pollEvents env (events inp) g))
                              + length (filter
                                  (recycles (dy (player
                                     (after_scroll_check inp (pollEvents env (events inp) g)))))
                                  (take i (platforms
                                     (after_scroll_check inp (pollEvents env (events inp) g))))))
                             mod 500)),
                       y = float32_of_int 0\<rparr>\<rparr>
               else \<lparr>position =
                      \<lparr>x = x (position
                             (platforms (after_scroll_check inp (pollEvents env (events inp) g)) ! i)),
                       y = fsub (y (position
                             (platforms (after_scroll_check inp (pollEvents env (events inp) g)) ! i)))
                             (dy (player (after_scroll_check inp (pollEvents env (events inp) g))))\<rparr>\<rparr>)
       [0..<length (platforms (after_scroll_check inp (pollEvents env (events inp) g)))]"
proof -
  define g4 where "g4 = after_scroll_check inp (pollEvents env (events inp) g)"
  from frame_playing_cases[OF n f] obtain g5 where
    u: "updatePlatforms env (reached Step_updatePlatforms g4) = Inr g5"
    and g7: "g7 = draw (reached Step_draw (handleCollisions (reached Step_handleCollisions g5)))"
    by (auto simp: g4_def after_scroll_check_def)
  have p7: "platforms g7 = platforms g5"
    by (simp add: g7 draw_def reached_def platforms_handleCollisions)
  have r: "player (reached Step_updatePlatforms g4) = player g4"
    "platforms (reached Step_updatePlatforms g4) = platforms g4"
    "rand_calls (reached Step_updatePlatforms g4) = rand_calls g4"
    by (simp_all add: reached_def)
  note e = updatePlatforms_platforms[OF u, unfolded r]
  show ?thesis
    unfolding p7 using e by (simp only: g4_def)
qed

lemma low_platform_frame_facts:
  "\<not> fgt (fadd (float32_of_int 400) (fadd (float32_of_int 0) lit_0_2f)) (float32_of_int 700)"
  "\<not> flt (fadd (float32_of_int 400) (fadd (float32_of_int 0) lit_0_2f)) (float32_of_int 300)"
  "fgt (fsub (float32_of_int 705) (fadd (float32_of_int 0) lit_0_2f)) (float32_of_int 700)"
  by (simp_all add: float32_eval)

lemma low_platform_after_scroll:
  "after_scroll_check example_input
     (pollEvents example_env (events example_input) example_low_platform)
   = example_low_platform\<lparr>
       player := \<lparr>position = \<lparr>x = float32_of_int 200,
                      y = fadd (float32_of_int 400) (fadd (float32_of_int 0) lit_0_2f)\<rparr>,
                   dx = float32_of_int 0, dy = fadd (float32_of_int 0) lit_0_2f\<rparr>,
       steps := [Step_handleInput, Step_player_update, Step_fall_out_check, Step_scroll_check]\<rparr>"
  by (simp add: after_scroll_check_def pollEvents_example handleInput_example update_player_def
      Player_update_def applyGravity_def fall_out_check_def scroll_check_def reached_def
      getPosition_def example_low_platform_def example_game_def Let_def low_platform_frame_facts)

section \<open>The claims\<close>

text \<open>
  C1.  In every frame whose update section is entered with the game-over flag clear, the
  steps run in this order: input handling, the player's physics update, the fall-out
  check, the scroll check, the platform update with recycling and scoring, collision
  resolution, and then the presentation.  Such a frame has a result whenever the score
  cannot overflow.
\<close>

theorem playing_frame_order:
  "(\<not> gameOver (pollEvents env (events inp) g) \<and> frame env inp g = Inr g7 \<longrightarrow>
      (\<exists>g5.
         updatePlatforms env (reached Step_updatePlatforms
           (scroll_check (reached Step_scroll_check
             (fall_out_check (reached Step_fall_out_check
               (update_player (reached Step_player_update
                 (handleInput inp (reached Step_handleInput
                   (pollEvents env (events inp) g))))))))))
           = Inr g5
         \<and> g7 = draw (reached Step_draw (handleCollisions (reached Step_handleCollisions g5)))
         \<and> steps g7 = steps (pollEvents env (events inp) g) @
             [Step_handleInput, Step_player_update, Step_fall_out_check, Step_scroll_check,
              Step_updatePlatforms, Step_handleCollisions, Step_draw]))
   \<and> (\<not> gameOver (pollEvents env (events inp) g)
        \<and> score (pollEvents env (events inp) g)
            + int (length (platforms (pollEvents env (events inp) g))) \<le> INT_MAX \<longrightarrow>
        (\<exists>g7. frame env inp g = Inr g7))"
proof (intro conjI impI)
  assume a: "\<not> gameOver (pollEvents env (events inp) g) \<and> frame env inp g = Inr g7"
  then obtain g5 where
    u: "updatePlatforms env (reached Step_updatePlatforms
           (scroll_check (reached Step_scroll_check
             (fall_out_check (reached Step_fall_out_check
               (update_player (reached Step_player_update
                 (handleInput inp (reached Step_handleInput
                   (pollEvents env (events inp) g))))))))))
           = Inr g5"
    and g7: "g7 = draw (reached Step_draw (handleCollisions (reached Step_handleCollisions g5)))"
    using frame_playing_cases by blast
  have "steps g5 = steps (pollEvents env (events inp) g) @
      [Step_handleInput, Step_player_update, Step_fall_out_check, Step_scroll_check,
       Step_updatePlatforms]"
    using steps_updatePlatforms[OF u] by (simp add: steps_simps)
  then have "steps g7 = steps (pollEvents env (events inp) g) @
      [Step_handleInput, Step_player_update, Step_fall_out_check, Step_scroll_check,
       Step_updatePlatforms, Step_handleCollisions, Step_draw]"
    by (simp add: g7 steps_simps)
  with u g7 show "\<exists>g5.
         updatePlatforms env (reached Step_updatePlatforms
           (scroll_check (reached Step_scroll_check
             (fall_out_check (reached Step_fall_out_check
               (update_player (reached Step_player_update
                 (handleInput inp (reached Step_handleInput
                   (pollEvents env (events inp) g))))))))))
           = Inr g5
         \<and> g7 = draw (reached Step_draw (handleCollisions (reached Step_handleCollisions g5)))
         \<and> steps g7 = steps (pollEvents env (events inp) g) @
             [Step_handleInput, Step_player_update, Step_fall_out_check, Step_scroll_check,
              Step_updatePlatforms, Step_handleCollisions, Step_draw]"
    by blast
next
  assume "\<not> gameOver (pollEvents env (events inp) g)
        \<and> score (pollEvents env (events inp) g)
            + int (length (platforms (pollEvents env (events inp) g))) \<le> INT_MAX"
  then show "\<exists>g7. frame env inp g = Inr g7"
    using frame_playing_total by blast
qed

theorem playing_frame_order_witness:
  "\<exists>g7. \<not> gameOver (pollEvents example_env (events example_input) example_high)
     \<and> score (pollEvents example_env (events example_input) example_high)
         + int (length (platforms (pollEvents example_env (events example_input) example_high)))
         \<le> INT_MAX
     \<and> frame example_env example_input example_high = Inr g7
     \<and> steps g7 = [Step_handleInput, Step_player_update, Step_fall_out_check,
             Step_scroll_check, Step_updatePlatforms, Step_handleCollisions, Step_draw]"
proof -
  have p: "pollEvents example_env (events example_input) example_high = example_high"
    by (rule pollEvents_example)
  have h1: "\<not> gameOver (pollEvents example_env (events example_input) example_high)"
    unfolding p by (simp add: example_high_def example_game_def)
  have h2: "score (pollEvents example_env (events example_input) example_high)
     + int (length (platforms (pollEvents example_env (events example_input) example_high)))
     \<le> INT_MAX"
    unfolding p by (simp add: example_high_def example_game_def INT_MAX_def)
  have s: "steps (pollEvents example_env (events example_input) example_high) = []"
    unfolding p by (simp add: example_high_def example_game_def)
  from playing_frame_order[of example_env example_input example_high] h1 h2 obtain g7 where
    f: "frame example_env example_input example_high = Inr g7" by blast
  with playing_frame_order[of example_env example_input example_high g7] h1
  have "steps g7 = steps (pollEvents example_env (events example_input) example_high) @
             [Step_handleInput, Step_player_update, Step_fall_out_check, Step_scroll_check,
              Step_updatePlatforms, Step_handleCollisions, Step_draw]"
    by blast
  then have "steps g7 = [Step_handleInput, Step_player_update, Step_fall_out_check,
             Step_scroll_check, Step_updatePlatforms, Step_handleCollisions, Step_draw]"
    by (simp add: s)
  with h1 h2 f show ?thesis by blast
qed

text \<open>
  C2.  The claim as stated fails: with the player at y = 250 the offset is 50, and a
  platform at y = 100 is moved to y = 150, not to y = 50: its y coordinate increases by
  the offset.
\<close>

theorem scroll_rule_counterexample:
  "flt (y (position (player example_high))) (float32_of_int 300)
   \<and> fsub (float32_of_int 300) (y (position (player example_high))) = float32_of_int 50
   \<and> map (\<lambda>pf. y (position pf)) (platforms example_high) = [float32_of_int 100]
   \<and> map (\<lambda>pf. y (position pf)) (platforms (scroll_check example_high)) = [float32_of_int 150]
   \<and> fsub (float32_of_int 100) (float32_of_int 50) = float32_of_int 50
   \<and> flt (float32_of_int 100) (float32_of_int 150)"
proof -
  have p: "y (position (player example_high)) = float32_of_int 250"
    and ps: "platforms example_high = [example_platform 100 100]"
    by (simp_all add: example_high_def example_game_def)
  have "map (\<lambda>pf. y (position pf)) (platforms (scroll_check example_high)) = [float32_of_int 150]"
    by (subst scroll_check_eq)
      (simp add: p ps high_facts example_platform_def Platform_new_def)
  then show ?thesis
    by (simp add: p ps high_facts example_platform_def Platform_new_def)
qed

text \<open>
  C2 as amended.  For every Playing-state frame in which the player's y position is below
  the threshold 300 after the physics update, the session computes offset = 300 - player.y
  (a positive number), sets player.y to exactly 300 (x unchanged), and increases every
  platform's y coordinate by offset, in single-precision arithmetic (translating all
  platforms downward; no platform's y decreases); when player.y is not below 300, neither
  the player nor any platform is changed by this rule.
\<close>

theorem scroll_rule:
  "scroll_check g =
     (if flt (y (position (player g))) (float32_of_int 300)
      then g\<lparr>player := (player g)\<lparr>position :=
                  \<lparr>x = x (position (player g)), y = float32_of_int 300\<rparr>\<rparr>,
             platforms := map (\<lambda>pf. pf\<lparr>position := (position pf)\<lparr>y :=
                  fadd (y (position pf))
                    (fsub (float32_of_int 300) (y (position (player g))))\<rparr>\<rparr>) (platforms g)\<rparr>
      else g)
   \<and> length (platforms (scroll_check g)) = length (platforms g)
   \<and> (flt (y (position (player g))) (float32_of_int 300) \<longrightarrow>
        fgt (fsub (float32_of_int 300) (y (position (player g)))) (float32_of_int 0))
   \<and> (flt (y (position (player g))) (float32_of_int 300) \<and> valid_float32 (y (position pf)) \<longrightarrow>
        \<not> flt (fadd (y (position pf)) (fsub (float32_of_int 300) (y (position (player g)))))
              (y (position pf)))"
proof (intro conjI impI)
  show "scroll_check g =
     (if flt (y (position (player g))) (float32_of_int 300)
      then g\<lparr>player := (player g)\<lparr>position :=
                  \<lparr>x = x (position (player g)), y = float32_of_int 300\<rparr>\<rparr>,
             platforms := map (\<lambda>pf. pf\<lparr>position := (position pf)\<lparr>y :=
                  fadd (y (position pf))
                    (fsub (float32_of_int 300) (y (position (player g))))\<rparr>\<rparr>) (platforms g)\<rparr>
      else g)"
    by (rule scroll_check_eq)
  show "length (platforms (scroll_check g)) = length (platforms g)"
    by (subst scroll_check_eq) simp
  show "fgt (fsub (float32_of_int 300) (y (position (player g)))) (float32_of_int 0)"
    if "flt (y (position (player g))) (float32_of_int 300)"
    using that by (rule scroll_offset_positive)
  show "\<not> flt (fadd (y (position pf)) (fsub (float32_of_int 300) (y (position (player g)))))
              (y (position pf))"
    if "flt (y (position (player g))) (float32_of_int 300) \<and> valid_float32 (y (position pf))"
    using that by (intro fadd_positive_not_less scroll_offset_positive) simp_all
qed

theorem scroll_rule_witness:
  "flt (y (position (player example_high))) (float32_of_int 300)
   \<and> valid_float32 (y (position (example_platform 100 100)))
   \<and> position (player (scroll_check example_high))
       = \<lparr>x = float32_of_int 200, y = float32_of_int 300\<rparr>
   \<and> fgt (fsub (float32_of_int 300) (y (position (player example_high)))) (float32_of_int 0)
   \<and> \<not> flt (fadd (y (position (example_platform 100 100)))
               (fsub (float32_of_int 300) (y (position (player example_high)))))
            (y (position (example_platform 100 100)))"
proof -
  have p: "position (player example_high) = \<lparr>x = float32_of_int 200, y = float32_of_int 250\<rparr>"
    by (simp add: example_high_def example_game_def)
  have h: "flt (y (position (player example_high))) (float32_of_int 300)"
    by (simp add: p high_facts)
  have v: "valid_float32 (y (position (example_platform 100 100)))"
    by (simp add: example_platform_def Platform_new_def valid_100)
  note t = scroll_rule[of example_high "example_platform 100 100"]
  from t h have e: "scroll_check example_high =
      example_high\<lparr>player := (player example_high)\<lparr>position :=
                  \<lparr>x = x (position (player example_high)), y = float32_of_int 300\<rparr>\<rparr>,
             platforms := map (\<lambda>pf. pf\<lparr>position := (position pf)\<lparr>y :=
                  fadd (y (position pf))
                    (fsub (float32_of_int 300) (y (position (player example_high))))\<rparr>\<rparr>)
                  (platforms example_high)\<rparr>"
    by simp
  have "position (player (scroll_check example_high))
       = \<lparr>x = float32_of_int 200, y = float32_of_int 300\<rparr>"
    by (subst e) (simp add: p)
  moreover from t h
  have "fgt (fsub (float32_of_int 300) (y (position (player example_high)))) (float32_of_int 0)"
    by blast
  moreover from t h v
  have "\<not> flt (fadd (y (position (example_platform 100 100)))
               (fsub (float32_of_int 300) (y (position (player example_high)))))
            (y (position (example_platform 100 100)))"
    by blast
  ultimately show ?thesis using h v by blast
qed

text \<open>
  C3.  The claim as stated fails: a recycled platform is placed at x = 450, beyond
  window_width - platform_width = 432.
\<close>

theorem recycle_rule_counterexample:
  "updatePlatforms_body example_env (example_platform 10 705) example_low_platform
     = Inr (example_platform 450 0, example_low_platform\<lparr>rand_calls := 1, score := 1\<rparr>)
   \<and> x (position (example_platform 450 0)) = float32_of_int 450
   \<and> flt (float32_of_int (window_width - platform_width)) (float32_of_int 450)"
proof (intro conjI)
  show "updatePlatforms_body example_env (example_platform 10 705) example_low_platform
     = Inr (example_platform 450 0, example_low_platform\<lparr>rand_calls := 1, score := 1\<rparr>)"
    by (rule low_platform_body)
  show "x (position (example_platform 450 0)) = float32_of_int 450"
    by (simp add: example_platform_def Platform_new_def)
  show "flt (float32_of_int (window_width - platform_width)) (float32_of_int 450)"
    by (rule beyond_platform_width)
qed

text \<open>
  C3 as amended.  For every platform in every Playing-state frame, after the platform
  moves by minus the player's vertical velocity, if its y position exceeds the bottom
  bound 700 it is repositioned to y = 0 with a random x in [0, window_width - 1], the next
  value of the random sequence modulo 500, and the score is incremented by exactly 1
  (undefined when the score is INT_MAX); otherwise it keeps its moved position and the
  score is unchanged.  The score after a Playing-state frame is the score before it plus
  the number of platforms recycled, so it never decreases while Playing.  The platform
  collection after the platform update, and after a Playing-state frame, holds at every
  index either the moved platform or, where the moved platform lies below 700, the
  platform repositioned at y = 0 with x the next unused value of the random sequence
  modulo 500; the values are consumed in the order of the collection.  The platform
  update has a result whenever the score can be incremented once for each platform
  without exceeding INT_MAX.
\<close>

theorem recycle_rule:
  "(score g < INT_MAX \<longrightarrow>
      (\<exists>pf' g'. updatePlatforms_body env pf g = Inr (pf', g') \<and>
         (if fgt (fsub (y (position pf)) (dy (player g))) (float32_of_int 700)
          then position pf' = \<lparr>x = float32_of_int (int (rand_seq env (rand_calls g) mod 500)),
                                y = float32_of_int 0\<rparr>
               \<and> \<not> flt (x (position pf')) (float32_of_int 0)
               \<and> flt (x (position pf')) (float32_of_int window_width)
               \<and> score g' = score g + 1
          else position pf' = \<lparr>x = x (position pf), y = fsub (y (position pf)) (dy (player g))\<rparr>
               \<and> score g' = score g)))
   \<and> (\<not> gameOver h \<and> frame env inp h = Inr h7 \<longrightarrow>
        score h \<le> score h7 \<and>
        score h7 = score h
          + int (length (filter
              (recycles (dy (player (after_scroll_check inp (pollEvents env (events inp) h)))))
              (platforms (after_scroll_check inp (pollEvents env (events inp) h))))))
   \<and> (updatePlatforms env k = Inr k' \<longrightarrow>
        platforms k' =
          map (\<lambda>i. if recycles (dy (player k)) (platforms k ! i)
                    then \<lparr>position =
                           \<lparr>x = float32_of_int (int (rand_seq env
                                  (rand_calls k
                                   + length (filter (recycles (dy (player k)))
                                       (take i (platforms k)))) mod 500)),
                            y = float32_of_int 0\<rparr>\<rparr>
                    else \<lparr>position =
                           \<lparr>x = x (position (platforms k ! i)),
                            y = fsub (y (position (platforms k ! i))) (dy (player k))\<rparr>\<rparr>)
            [0..<length (platforms k)])
   \<and> (\<not> gameOver h \<and> frame env inp h = Inr h7 \<longrightarrow>
        (let g4 = after_scroll_check inp (pollEvents env (events inp) h)
         in platforms h7 =
              map (\<lambda>i. if recycles (dy (player g4)) (platforms g4 ! i)
                        then \<lparr>position =
                               \<lparr>x = float32_of_int (int (rand_seq env
                                      (rand_calls g4
                                       + length (filter (recycles (dy (player g4)))
                                           (take i (platforms g4)))) mod 500)),
                                y = float32_of_int 0\<rparr>\<rparr>
                        else \<lparr>position =
                               \<lparr>x = x (position (platforms g4 ! i)),
                                y = fsub (y (position (platforms g4 ! i))) (dy (player g4))\<rparr>\<rparr>)
                [0..<length (platforms g4)]))
   \<and> (score k + int (length (platforms k)) \<le> INT_MAX \<longrightarrow>
        (\<exists>k2. updatePlatforms env k = Inr k2))"
proof (intro conjI impI)
  assume s: "score g < INT_MAX"
  from updatePlatforms_body_total[OF s] obtain pf' g' where
    b: "updatePlatforms_body env pf g = Inr (pf', g')" by blast
  have r: "recycles (dy (player g)) pf
           \<longleftrightarrow> fgt (fsub (y (position pf)) (dy (player g))) (float32_of_int 700)"
    by (simp add: recycles_def Platform_move_def)
  have w: "\<not> flt (float32_of_int (int (n mod 500))) (float32_of_int 0)
         \<and> flt (float32_of_int (int (n mod 500))) (float32_of_int window_width)" for n :: nat
    using float32_of_nat_range[of "n mod 500" 500] by (simp add: window_width_def)
  have "if fgt (fsub (y (position pf)) (dy (player g))) (float32_of_int 700)
          then position pf' = \<lparr>x = float32_of_int (int (rand_seq env (rand_calls g) mod 500)),
                                y = float32_of_int 0\<rparr>
               \<and> \<not> flt (x (position pf')) (float32_of_int 0)
               \<and> flt (x (position pf')) (float32_of_int window_width)
               \<and> score g' = score g + 1
          else position pf' = \<lparr>x = x (position pf), y = fsub (y (position pf)) (dy (player g))\<rparr>
               \<and> score g' = score g"
    using updatePlatforms_body_result[OF b] w
    by (simp add: r setPosition_def Platform_move_def)
  with b show "\<exists>pf' g'. updatePlatforms_body env pf g = Inr (pf', g') \<and>
         (if fgt (fsub (y (position pf)) (dy (player g))) (float32_of_int 700)
          then position pf' = \<lparr>x = float32_of_int (int (rand_seq env (rand_calls g) mod 500)),
                                y = float32_of_int 0\<rparr>
               \<and> \<not> flt (x (position pf')) (float32_of_int 0)
               \<and> flt (x (position pf')) (float32_of_int window_width)
               \<and> score g' = score g + 1
          else position pf' = \<lparr>x = x (position pf), y = fsub (y (position pf)) (dy (player g))\<rparr>
               \<and> score g' = score g)"
    by blast
next
  assume a: "\<not> gameOver h \<and> frame env inp h = Inr h7"
  then have p: "pollEvents env (events inp) h
                = h\<lparr>window_isOpen := window_isOpen h \<and> \<not> list_ex type_Closed (events inp)\<rparr>"
    by (simp add: pollEvents_playing)
  have n: "\<not> gameOver (pollEvents env (events inp) h)" using a by (simp add: p)
  have sp: "score (pollEvents env (events inp) h) = score h" by (simp add: p)
  from a have f: "frame env inp h = Inr h7" by simp
  note e = frame_playing_score[OF n f, unfolded sp]
  show "score h \<le> score h7" by (subst e) simp
  show "score h7 = score h
          + int (length (filter
              (recycles (dy (player (after_scroll_check inp (pollEvents env (events inp) h)))))
              (platforms (after_scroll_check inp (pollEvents env (events inp) h)))))"
    by (rule e)
next
  assume "updatePlatforms env k = Inr k'"
  then show "platforms k' =
          map (\<lambda>i. if recycles (dy (player k)) (platforms k ! i)
                    then \<lparr>position =
                           \<lparr>x = float32_of_int (int (rand_seq env
                                  (rand_calls k
                                   + length (filter (recycles (dy (player k)))
                                       (take i (platforms k)))) mod 500)),
                            y = float32_of_int 0\<rparr>\<rparr>
                    else \<lparr>position =
                           \<lparr>x = x (position (platforms k ! i)),
                            y = fsub (y (position (platforms k ! i))) (dy (player k))\<rparr>\<rparr>)
            [0..<length (platforms k)]"
    by (rule updatePlatforms_platforms)
next
  assume a: "\<not> gameOver h \<and> frame env inp h = Inr h7"
  then have n: "\<not> gameOver (pollEvents env (events inp) h)"
    by (simp add: pollEvents_playing)
  from a have f: "frame env inp h = Inr h7" by simp
  show "let g4 = after_scroll_check inp (pollEvents env (events inp) h)
         in platforms h7 =
              map (\<lambda>i. if recycles (dy (player g4)) (platforms g4 ! i)
                        then \<lparr>position =
                               \<lparr>x = float32_of_int (int (rand_seq env
                                      (rand_calls g4
                                       + length (filter (recycles (dy (player g4)))
                                           (take i (platforms g4)))) mod 500)),
                                y = float32_of_int 0\<rparr>\<rparr>
                        else \<lparr>position =
                               \<lparr>x = x (position (platforms g4 ! i)),
                                y = fsub (y (position (platforms g4 ! i))) (dy (player g4))\<rparr>\<rparr>)
                [0..<length (platforms g4)]"
    unfolding Let_def by (rule frame_playing_platforms[OF n f])
next
  assume "score k + int (length (platforms k)) \<le> INT_MAX"
  then show "\<exists>k2. updatePlatforms env k = Inr k2"
    by (rule updatePlatforms_total)
qed

theorem recycle_rule_witness:
  "\<exists>h7 k'. score example_low_platform < INT_MAX
     \<and> fgt (fsub (y (position (example_platform 10 705))) (dy (player example_low_platform)))
          (float32_of_int 700)
     \<and> (\<exists>pf' g'. updatePlatforms_body example_env (example_platform 10 705) example_low_platform
                    = Inr (pf', g')
          \<and> position pf' = \<lparr>x = float32_of_int (int (rand_seq example_env
                                   (rand_calls example_low_platform) mod 500)),
                             y = float32_of_int 0\<rparr>
          \<and> score g' = score example_low_platform + 1)
     \<and> \<not> gameOver example_low_platform
     \<and> frame example_env example_input example_low_platform = Inr h7
     \<and> score example_low_platform \<le> score h7
     \<and> score example_low_platform + int (length (platforms example_low_platform)) \<le> INT_MAX
     \<and> updatePlatforms example_env example_low_platform = Inr k'
     \<and> platforms k' = [example_platform 450 0]
     \<and> platforms h7 = [example_platform 450 0]"
proof -
  have s: "score example_low_platform < INT_MAX"
    by (simp add: example_low_platform_def example_game_def INT_MAX_def)
  have c: "fgt (fsub (y (position (example_platform 10 705))) (dy (player example_low_platform)))
          (float32_of_int 700)"
    by (simp add: example_low_platform_def example_game_def example_platform_def Platform_new_def
        low_platform_recycles)
  have n: "\<not> gameOver example_low_platform"
    by (simp add: example_low_platform_def example_game_def)
  have n': "\<not> gameOver (pollEvents example_env (events example_input) example_low_platform)"
    using n by (simp add: pollEvents_example)
  have b: "score (pollEvents example_env (events example_input) example_low_platform)
       + int (length (platforms (pollEvents example_env (events example_input) example_low_platform)))
       \<le> INT_MAX"
    by (simp add: pollEvents_example example_low_platform_def example_game_def INT_MAX_def)
  from frame_playing_total[OF n' b] obtain h7 where
    f: "frame example_env example_input example_low_platform = Inr h7" by blast
  have b': "score example_low_platform + int (length (platforms example_low_platform)) \<le> INT_MAX"
    by (simp add: example_low_platform_def example_game_def INT_MAX_def)
  from recycle_rule[of example_low_platform example_env "example_platform 10 705"
      example_low_platform example_input h7 example_low_platform] b'
  obtain k' where
    u: "updatePlatforms example_env example_low_platform = Inr k'" by blast
  note t = recycle_rule[of example_low_platform example_env "example_platform 10 705"
      example_low_platform example_input h7 example_low_platform k']
  from t s c have "\<exists>pf' g'. updatePlatforms_body example_env (example_platform 10 705)
                    example_low_platform = Inr (pf', g')
          \<and> position pf' = \<lparr>x = float32_of_int (int (rand_seq example_env
                                   (rand_calls example_low_platform) mod 500)),
                             y = float32_of_int 0\<rparr>
          \<and> score g' = score example_low_platform + 1"
    by auto
  moreover from t n f have "score example_low_platform \<le> score h7" by blast
  moreover from t u have "platforms k' =
          map (\<lambda>i. if recycles (dy (player example_low_platform)) (platforms example_low_platform ! i)
                    then \<lparr>position =
                           \<lparr>x = float32_of_int (int (rand_seq example_env
                                  (rand_calls example_low_platform
                                   + length (filter (recycles (dy (player example_low_platform)))
                                       (take i (platforms example_low_platform)))) mod 500)),
                            y = float32_of_int 0\<rparr>\<rparr>
                    else \<lparr>position =
                           \<lparr>x = x (position (platforms example_low_platform ! i)),
                            y = fsub (y (position (platforms example_low_platform ! i)))
                                  (dy (player example_low_platform))\<rparr>\<rparr>)
            [0..<length (platforms example_low_platform)]"
    by blast
  then have "platforms k' = [example_platform 450 0]"
    by (simp add: example_low_platform_def example_game_def example_platform_def
        example_env_def Platform_new_def recycles_def Platform_move_def low_platform_recycles)
  moreover from t n f have "let g4 = after_scroll_check example_input
             (pollEvents example_env (events example_input) example_low_platform)
         in platforms h7 =
              map (\<lambda>i. if recycles (dy (player g4)) (platforms g4 ! i)
                        then \<lparr>position =
                               \<lparr>x = float32_of_int (int (rand_seq example_env
                                      (rand_calls g4
                                       + length (filter (recycles (dy (player g4)))
                                           (take i (platforms g4)))) mod 500)),
                                y = float32_of_int 0\<rparr>\<rparr>
                        else \<lparr>position =
                               \<lparr>x = x (position (platforms g4 ! i)),
                                y = fsub (y (position (platforms g4 ! i))) (dy (player g4))\<rparr>\<rparr>)
                [0..<length (platforms g4)]"
    by blast
  then have "platforms h7 = [example_platform 450 0]"
    unfolding low_platform_after_scroll Let_def
    by (simp add: example_low_platform_def example_game_def example_platform_def
        example_env_def Platform_new_def recycles_def Platform_move_def low_platform_frame_facts)
  ultimately show ?thesis using s c n f u b' by blast
qed

text \<open>
  C4.  The claim as stated fails: with two platforms that both overlap the descending
  player, the pass registers one hit, not two.
\<close>

theorem collision_pass_counterexample:
  "length (filter (\<lambda>pf. collision_test pf (player example_descending))
     (platforms example_descending)) = 2
   \<and> fgt (dy (player example_descending)) (float32_of_int 0)
   \<and> jumpSound_plays (handleCollisions example_descending)
       = jumpSound_plays example_descending + 1"
proof -
  have ps: "platforms example_descending = [example_platform 200 165, example_platform 210 168]"
    by (simp add: example_descending_def example_game_def)
  have "fgt (dy (player example_descending)) (float32_of_int 0)"
    by (simp add: example_descending_def example_game_def overlap_facts)
  then show ?thesis
    by (simp add: ps collision_test_descending handleCollisions_def handleCollisions_loop_result)
qed

text \<open>
  C4 as amended.  In one pass of collision resolution at most one platform registers a
  hit: the first one, in the order of the collection, that overlaps the player's inset box
  while the vertical velocity is greater than 0.  Its hit sets the velocity to -8.0, after
  which the rest of the pass changes nothing.  So after a pass with at least one such
  platform the velocity is exactly -8.0 and the sound has been played once; with none the
  game is unchanged.
\<close>

theorem collision_pass:
  "handleCollisions g =
     (if \<exists>pf \<in> set (platforms g). collision_test pf (player g)
      then g\<lparr>player := (player g)\<lparr>dy := Fin True (8 * 2 ^ 149)\<rparr>,
             jumpSound_plays := Suc (jumpSound_plays g)\<rparr>
      else g)
   \<and> (collision_test pf (player g) \<longrightarrow>
        handleCollisions_loop rest (handleCollisions_body pf g) = handleCollisions_body pf g)
   \<and> jumpSound_plays (handleCollisions g) \<le> Suc (jumpSound_plays g)"
proof (intro conjI impI)
  show "handleCollisions g =
     (if \<exists>pf \<in> set (platforms g). collision_test pf (player g)
      then g\<lparr>player := (player g)\<lparr>dy := Fin True (8 * 2 ^ 149)\<rparr>,
             jumpSound_plays := Suc (jumpSound_plays g)\<rparr>
      else g)"
    by (simp add: handleCollisions_def handleCollisions_loop_result jump_def fneg_8)
  show "handleCollisions_loop rest (handleCollisions_body pf g) = handleCollisions_body pf g"
    if "collision_test pf (player g)"
    using that
    by (simp add: handleCollisions_loop_result handleCollisions_body_def not_collision_test_jump)
  show "jumpSound_plays (handleCollisions g) \<le> Suc (jumpSound_plays g)"
    by (simp add: handleCollisions_def handleCollisions_loop_result)
qed

theorem collision_pass_witness:
  "collision_test (example_platform 200 165) (player example_descending)
   \<and> handleCollisions_loop [example_platform 210 168]
        (handleCollisions_body (example_platform 200 165) example_descending)
       = handleCollisions_body (example_platform 200 165) example_descending
   \<and> dy (player (handleCollisions example_descending)) = Fin True (8 * 2 ^ 149)"
proof -
  have ps: "platforms example_descending = [example_platform 200 165, example_platform 210 168]"
    by (simp add: example_descending_def example_game_def)
  note t = collision_pass[of example_descending "example_platform 200 165" "[example_platform 210 168]"]
  from t collision_test_descending(1)
  have "handleCollisions_loop [example_platform 210 168]
        (handleCollisions_body (example_platform 200 165) example_descending)
       = handleCollisions_body (example_platform 200 165) example_descending" by blast
  moreover from t have "dy (player (handleCollisions example_descending)) = Fin True (8 * 2 ^ 149)"
    by (simp add: ps collision_test_descending)
  ultimately show ?thesis using collision_test_descending(1) by blast
qed




text \<open>
  C6.  For one platform and the player, the collision triggers (the velocity becomes -8.0
  and the bounce sound is played) if and only if the four comparisons of the inset boxes
  hold and the vertical velocity is greater than 0; a player with a negative vertical
  velocity never triggers it.
\<close>

theorem collision_trigger:
  "(collision_test pf (player g) \<longleftrightarrow>
      fgt (fadd (x (position (player g))) (float32_of_int 50)) (x (position pf)) \<and>
      flt (fadd (x (position (player g))) (float32_of_int 20))
          (fadd (x (position pf)) (float32_of_int 68)) \<and>
      fgt (fadd (y (position (player g))) (float32_of_int 70)) (y (position pf)) \<and>
      flt (fadd (y (position (player g))) (float32_of_int 70))
          (fadd (y (position pf)) (float32_of_int 14)) \<and>
      fgt (dy (player g)) (float32_of_int 0))
   \<and> handleCollisions_body pf g =
       (if collision_test pf (player g)
        then g\<lparr>player := (player g)\<lparr>dy := Fin True (8 * 2 ^ 149)\<rparr>,
               jumpSound_plays := Suc (jumpSound_plays g)\<rparr>
        else g)
   \<and> (jumpSound_plays (handleCollisions_body pf g) \<noteq> jumpSound_plays g
        \<longleftrightarrow> collision_test pf (player g))
   \<and> (flt (dy (player g)) (float32_of_int 0) \<longrightarrow> handleCollisions_body pf g = g)"
proof -
  have up: "\<not> collision_test pf (player g)" if "flt (dy (player g)) (float32_of_int 0)"
    using flt_asym[OF that] by (simp add: collision_test_def fgt_def getVelocityY_def)
  show ?thesis
  proof (intro conjI impI)
    show "collision_test pf (player g) \<longleftrightarrow>
      fgt (fadd (x (position (player g))) (float32_of_int 50)) (x (position pf)) \<and>
      flt (fadd (x (position (player g))) (float32_of_int 20))
          (fadd (x (position pf)) (float32_of_int 68)) \<and>
      fgt (fadd (y (position (player g))) (float32_of_int 70)) (y (position pf)) \<and>
      flt (fadd (y (position (player g))) (float32_of_int 70))
          (fadd (y (position pf)) (float32_of_int 14)) \<and>
      fgt (dy (player g)) (float32_of_int 0)"
      by (simp add: collision_test_def getPosition_def getVelocityY_def Let_def)
    show "handleCollisions_body pf g =
       (if collision_test pf (player g)
        then g\<lparr>player := (player g)\<lparr>dy := Fin True (8 * 2 ^ 149)\<rparr>,
               jumpSound_plays := Suc (jumpSound_plays g)\<rparr>
        else g)"
      by (simp add: handleCollisions_body_def jump_def fneg_8)
    show "jumpSound_plays (handleCollisions_body pf g) \<noteq> jumpSound_plays g
        \<longleftrightarrow> collision_test pf (player g)"
      by (simp add: handleCollisions_body_def)
    show "handleCollisions_body pf g = g" if "flt (dy (player g)) (float32_of_int 0)"
      using up[OF that] by (simp add: handleCollisions_body_def)
  qed
qed

theorem collision_trigger_witness:
  "flt (dy (player example_ascending)) (float32_of_int 0)
   \<and> handleCollisions_body (example_platform 200 165) example_ascending = example_ascending
   \<and> collision_test (example_platform 200 165) (player example_descending)
   \<and> dy (player (handleCollisions_body (example_platform 200 165) example_descending))
       = Fin True (8 * 2 ^ 149)
   \<and> jumpSound_plays (handleCollisions_body (example_platform 200 165) example_descending) = 1"
proof -
  have a: "flt (dy (player example_ascending)) (float32_of_int 0)"
    by (simp add: example_ascending_def example_game_def overlap_facts)
  have d: "jumpSound_plays example_descending = 0"
    by (simp add: example_descending_def example_game_def)
  note t1 = collision_trigger[of "example_platform 200 165" example_ascending]
  note t2 = collision_trigger[of "example_platform 200 165" example_descending]
  from t1 a have "handleCollisions_body (example_platform 200 165) example_ascending
                  = example_ascending" by blast
  moreover from t2 collision_test_descending(1)
  have "handleCollisions_body (example_platform 200 165) example_descending
        = example_descending\<lparr>player := (player example_descending)\<lparr>dy := Fin True (8 * 2 ^ 149)\<rparr>,
               jumpSound_plays := Suc (jumpSound_plays example_descending)\<rparr>"
    by simp
  ultimately show ?thesis
    using a collision_test_descending(1) d by simp
qed

text \<open>
  C7.  The claim as stated fails: in the frame that sets the flag, the platform update
  runs while the flag is already true and moves the platform.
\<close>

theorem game_over_flag_counterexample:
  "gameOver example_fallen
   \<and> map (\<lambda>pf. y (position pf)) (platforms example_fallen) = [float32_of_int 100]
   \<and> (case updatePlatforms example_env
            (reached Step_updatePlatforms (scroll_check (reached Step_scroll_check example_fallen)))
       of Inl e \<Rightarrow> False
        | Inr g5 \<Rightarrow>
            frame example_env example_input example_falling
              = Inr (draw (reached Step_draw (handleCollisions (reached Step_handleCollisions g5))))
            \<and> gameOver g5
            \<and> map (\<lambda>pf. y (position pf)) (platforms g5)
                = [fsub (float32_of_int 100) (fadd (float32_of_int 5) lit_0_2f)]
            \<and> flt (fsub (float32_of_int 100) (fadd (float32_of_int 5) lit_0_2f))
                 (float32_of_int 100))"
proof -
  have a: "gameOver example_fallen" by (simp add: example_fallen_eq)
  have b: "map (\<lambda>pf. y (position pf)) (platforms example_fallen) = [float32_of_int 100]"
    by (simp add: example_fallen_eq example_falling_def example_game_def example_platform_def
        Platform_new_def)
  have n: "\<not> gameOver (pollEvents example_env (events example_input) example_falling)"
    by (simp add: pollEvents_example example_falling_def example_game_def)
  have f: "frame example_env example_input example_falling
     = Inr (draw (reached Step_draw (handleCollisions (reached Step_handleCollisions
         (example_fallen\<lparr>
       steps := [Step_handleInput, Step_player_update, Step_fall_out_check, Step_scroll_check,
                 Step_updatePlatforms],
       platforms := [Platform_new (float32_of_int 100)
                       (fsub (float32_of_int 100) (fadd (float32_of_int 5) lit_0_2f))]\<rparr>)))))"
    by (rule frame_playing[OF n]) (simp only: example_fallen_update example_fallen_def[symmetric])
  show ?thesis
    unfolding example_fallen_update
    using a b f by (simp add: Platform_new_def falling_platform_moved)
qed

text \<open>
  C7 as amended.  In a frame whose update section is entered with the flag clear, the flag
  is set exactly when the player's y position is above 700 after the physics update.  A
  frame entered with the flag set in which no event is handled with the R key held only
  draws: the flag stays set and the player, the platforms and the score do not change, over
  any number of such frames.  The flag is cleared only by an event handled with the R key
  held, which calls the reset operation.
\<close>

theorem game_over_flag:
  "(\<not> gameOver (pollEvents env (events inp) g) \<and> frame env inp g = Inr g7 \<longrightarrow>
      (gameOver g7 \<longleftrightarrow>
        fgt (y (getPosition (player (update_player
              (handleInput inp (pollEvents env (events inp) g))))))
          (float32_of_int 700)))
   \<and> (gameOver h \<and> \<not> list_ex key_R (events inp) \<longrightarrow>
        frame env inp h =
          Inr (h\<lparr>window_isOpen := window_isOpen h
                    \<and> \<not> list_ex (\<lambda>e. type_Closed e \<or> key_Escape e) (events inp),
                 steps := steps h @ [Step_draw],
                 displayed := [Draw_sBackground, Draw_gameOverText, Draw_retryText]\<rparr>))
   \<and> (gameOver h \<and> \<not> gameOver (handle_event env e h) \<longrightarrow>
        key_R e \<and> handle_event env e h
          = resetGame env (if type_Closed e then h\<lparr>window_isOpen := False\<rparr> else h))
   \<and> (gameOver h \<and> frame env inp h = Inr h7 \<and> \<not> gameOver h7 \<longrightarrow> list_ex key_R (events inp))
   \<and> (gameOver h \<and> list_all (\<lambda>i. \<not> list_ex key_R (events i)) inps \<longrightarrow>
        (\<exists>h' n. run env inps h = Inr h' \<and> gameOver h' \<and> player h' = player h
           \<and> platforms h' = platforms h \<and> score h' = score h
           \<and> steps h' = steps h @ replicate n Step_draw))"
proof (intro conjI impI)
  assume "\<not> gameOver (pollEvents env (events inp) g) \<and> frame env inp g = Inr g7"
  then show "gameOver g7 \<longleftrightarrow>
        fgt (y (getPosition (player (update_player
              (handleInput inp (pollEvents env (events inp) g))))))
          (float32_of_int 700)"
    using frame_playing_gameOver by blast
next
  assume "gameOver h \<and> \<not> list_ex key_R (events inp)"
  then show "frame env inp h =
          Inr (h\<lparr>window_isOpen := window_isOpen h
                    \<and> \<not> list_ex (\<lambda>e. type_Closed e \<or> key_Escape e) (events inp),
                 steps := steps h @ [Step_draw],
                 displayed := [Draw_sBackground, Draw_gameOverText, Draw_retryText]\<rparr>)"
    by (simp add: frame_gameOver)
next
  assume a: "gameOver h \<and> \<not> gameOver (handle_event env e h)"
  then show "key_R e" using handle_event_clears_flag by blast
  from a show "handle_event env e h
          = resetGame env (if type_Closed e then h\<lparr>window_isOpen := False\<rparr> else h)"
    using handle_event_clears_flag by blast
next
  assume a: "gameOver h \<and> frame env inp h = Inr h7 \<and> \<not> gameOver h7"
  show "list_ex key_R (events inp)"
  proof (rule ccontr)
    assume "\<not> list_ex key_R (events inp)"
    with a frame_gameOver[of h inp env] show False by auto
  qed
next
  assume "gameOver h \<and> list_all (\<lambda>i. \<not> list_ex key_R (events i)) inps"
  then show "\<exists>h' n. run env inps h = Inr h' \<and> gameOver h' \<and> player h' = player h
           \<and> platforms h' = platforms h \<and> score h' = score h
           \<and> steps h' = steps h @ replicate n Step_draw"
    using run_gameOver by blast
qed

theorem game_over_flag_witness:
  "\<exists>g7 h7 h'.
     \<not> gameOver (pollEvents example_env (events example_input) example_falling)
     \<and> frame example_env example_input example_falling = Inr g7
     \<and> gameOver g7
     \<and> fgt (y (getPosition (player (update_player
              (handleInput example_input
                (pollEvents example_env (events example_input) example_falling))))))
          (float32_of_int 700)
     \<and> gameOver example_over
     \<and> \<not> list_ex key_R (events example_input)
     \<and> frame example_env example_input example_over =
          Inr (example_over\<lparr>window_isOpen := window_isOpen example_over
                    \<and> \<not> list_ex (\<lambda>e. type_Closed e \<or> key_Escape e) (events example_input),
                 steps := steps example_over @ [Step_draw],
                 displayed := [Draw_sBackground, Draw_gameOverText, Draw_retryText]\<rparr>)
     \<and> \<not> gameOver (handle_event example_env
            \<lparr>type_Closed = False, key_R = True, key_Escape = False\<rparr> example_over)
     \<and> handle_event example_env \<lparr>type_Closed = False, key_R = True, key_Escape = False\<rparr>
           example_over = resetGame example_env example_over
     \<and> frame example_env example_retry example_over = Inr h7
     \<and> \<not> gameOver h7
     \<and> list_ex key_R (events example_retry)
     \<and> list_all (\<lambda>i. \<not> list_ex key_R (events i)) [example_input, example_input]
     \<and> run example_env [example_input, example_input] example_over = Inr h'
     \<and> gameOver h' \<and> player h' = player example_over
     \<and> platforms h' = platforms example_over \<and> score h' = score example_over"
proof -
  have h1: "\<not> gameOver (pollEvents example_env (events example_input) example_falling)"
    by (simp add: pollEvents_example example_falling_def example_game_def)
  have h2: "score (pollEvents example_env (events example_input) example_falling)
       + int (length (platforms (pollEvents example_env (events example_input) example_falling)))
       \<le> INT_MAX"
    by (simp add: pollEvents_example example_falling_def example_game_def INT_MAX_def)
  from frame_playing_total[OF h1 h2] obtain g7 where
    f: "frame example_env example_input example_falling = Inr g7" by blast
  have fell: "fgt (y (getPosition (player (update_player
              (handleInput example_input
                (pollEvents example_env (events example_input) example_falling))))))
          (float32_of_int 700)"
    by (simp add: pollEvents_example handleInput_example update_player_def Player_update_def
        applyGravity_def example_falling_def example_game_def getPosition_def Let_def falling_fact)
  have over: "gameOver example_over" by (simp add: example_over_def)
  have noR: "\<not> list_ex key_R (events example_input)" by (simp add: example_input_def)
  have cleared: "\<not> gameOver (handle_event example_env
            \<lparr>type_Closed = False, key_R = True, key_Escape = False\<rparr> example_over)"
    using over by (simp add: handle_event_def Let_def resetGame_eq)
  have r1: "\<not> gameOver (pollEvents example_env (events example_retry) example_over)"
    by (simp add: pollEvents_retry resetGame_eq)
  have r2: "score (pollEvents example_env (events example_retry) example_over)
       + int (length (platforms (pollEvents example_env (events example_retry) example_over)))
       \<le> INT_MAX"
    by (simp add: pollEvents_retry resetGame_eq length_random_platforms INT_MAX_def)
  from frame_playing_total[OF r1 r2] obtain h7 where
    fr: "frame example_env example_retry example_over = Inr h7" by blast
  have hr: "handleInput example_retry g = g" for g
    by (simp add: example_retry_def handleInput_def)
  have alive: "\<not> gameOver h7"
    using frame_playing_gameOver[OF r1 fr]
    by (simp add: pollEvents_retry hr resetGame_eq update_player_def Player_update_def
        applyGravity_def getPosition_def Let_def start_no_fall)
  have quiet: "list_all (\<lambda>i. \<not> list_ex key_R (events i)) [example_input, example_input]"
    by (simp add: example_input_def)
  note t = game_over_flag[of example_env example_input example_falling g7 example_over
      "\<lparr>type_Closed = False, key_R = True, key_Escape = False\<rparr>" _
      "[example_input, example_input]"]
  note t' = game_over_flag[of example_env example_retry example_over _ example_over _ h7]
  from t h1 f fell have a: "gameOver g7" by blast
  from t over noR have b: "frame example_env example_input example_over =
          Inr (example_over\<lparr>window_isOpen := window_isOpen example_over
                    \<and> \<not> list_ex (\<lambda>e. type_Closed e \<or> key_Escape e) (events example_input),
                 steps := steps example_over @ [Step_draw],
                 displayed := [Draw_sBackground, Draw_gameOverText, Draw_retryText]\<rparr>)"
    by blast
  from t over cleared have c: "handle_event example_env
         \<lparr>type_Closed = False, key_R = True, key_Escape = False\<rparr> example_over
       = resetGame example_env example_over"
    by simp
  from t' over fr alive have d: "list_ex key_R (events example_retry)" by blast
  from t over quiet obtain h' where e:
    "run example_env [example_input, example_input] example_over = Inr h'"
    "gameOver h'" "player h' = player example_over"
    "platforms h' = platforms example_over" "score h' = score example_over"
    by blast
  show ?thesis
    using h1 f a fell over noR b cleared c fr alive d quiet e by blast
qed

text \<open>
  C8.  After the reset operation the player is at (200, 200) with velocity 0, the score is
  0, the game-over flag is clear, and the collection holds exactly 10 platforms, each built
  from the next two values of the random sequence, its x coordinate in [0, 500) and its y
  coordinate in [0, 700).  Nothing else changes but the score text and the position in the
  random sequence.
\<close>

theorem reset_state:
  "resetGame env g =
     g\<lparr>player := \<lparr>position = \<lparr>x = float32_of_int 200, y = float32_of_int 200\<rparr>,
                   dx = float32_of_int 0, dy = float32_of_int 0\<rparr>,
       score := 0, gameOver := False,
       rand_calls := rand_calls g + 20,
       platforms := random_platforms env (rand_calls g) 10,
       scoreText := ''Score: 0''\<rparr>
   \<and> length (platforms (resetGame env g)) = 10
   \<and> list_all (\<lambda>pf. in_window (position pf)) (platforms (resetGame env g))"
  by (simp add: resetGame_eq length_random_platforms in_window_random_platforms)

theorem reset_state_witness:
  "player (resetGame example_env example_over)
     = \<lparr>position = \<lparr>x = float32_of_int 200, y = float32_of_int 200\<rparr>,
        dx = float32_of_int 0, dy = float32_of_int 0\<rparr>
   \<and> score (resetGame example_env example_over) = 0
   \<and> \<not> gameOver (resetGame example_env example_over)
   \<and> length (platforms (resetGame example_env example_over)) = 10"
proof -
  note t = reset_state[of example_env example_over]
  from t have e: "resetGame example_env example_over =
     example_over\<lparr>player := \<lparr>position = \<lparr>x = float32_of_int 200, y = float32_of_int 200\<rparr>,
                   dx = float32_of_int 0, dy = float32_of_int 0\<rparr>,
       score := 0, gameOver := False,
       rand_calls := rand_calls example_over + 20,
       platforms := random_platforms example_env (rand_calls example_over) 10,
       scoreText := ''Score: 0''\<rparr>"
    by blast
  from t have l: "length (platforms (resetGame example_env example_over)) = 10" by blast
  have "player (resetGame example_env example_over)
     = \<lparr>position = \<lparr>x = float32_of_int 200, y = float32_of_int 200\<rparr>,
        dx = float32_of_int 0, dy = float32_of_int 0\<rparr>"
    by (subst e) simp
  moreover have "score (resetGame example_env example_over) = 0" by (subst e) simp
  moreover have "\<not> gameOver (resetGame example_env example_over)" by (subst e) simp
  ultimately show ?thesis using l by blast
qed

text \<open>
  C9.  When the font does not load, the constructor returns before \<^verbatim>\<open>resetGame()\<close>: the
  game starts in the playing state with an empty platform collection, and a frame leaves
  it empty.
\<close>

theorem font_failure_no_platforms:
  "platforms (Game_new env False sound_loaded) = []
   \<and> \<not> gameOver (Game_new env False sound_loaded)
   \<and> window_isOpen (Game_new env False sound_loaded)
   \<and> (\<exists>g7. frame env example_input (Game_new env False sound_loaded) = Inr g7
         \<and> platforms g7 = [] \<and> \<not> gameOver g7)"
proof -
  have g: "Game_new env False sound_loaded = Game_members" by (simp add: Game_new_def)
  have n: "\<not> gameOver (pollEvents env (events example_input) Game_members)"
    by (simp add: pollEvents_example Game_members_def)
  have b: "score (pollEvents env (events example_input) Game_members)
       + int (length (platforms (pollEvents env (events example_input) Game_members))) \<le> INT_MAX"
    by (simp add: pollEvents_example Game_members_def INT_MAX_def)
  from frame_playing_total[OF n b] obtain g7 where
    f: "frame env example_input Game_members = Inr g7" by blast
  have "length (platforms g7) = 0"
    using length_platforms_frame[OF f] by (simp add: pollEvents_example Game_members_def)
  moreover have "\<not> gameOver g7"
    using frame_playing_gameOver[OF n f]
    by (simp add: pollEvents_example handleInput_example update_player_def Player_update_def
        applyGravity_def Game_members_def Player_new_def getPosition_def Let_def start_no_fall)
  ultimately show ?thesis
    using f by (simp add: g) (simp add: Game_members_def)
qed

text \<open>
  C10.  In a frame whose fall-out check sets the game-over flag, the rest of the frame
  still runs after the flag is set: the scroll check, the platform update with its score
  increments, collision resolution and the presentation.  The next frame, unless it
  resets the game, runs none of them and only draws.
\<close>

theorem game_over_frame_completes:
  "(\<not> gameOver (pollEvents env (events inp) g)
      \<and> fgt (y (getPosition (player (update_player (reached Step_player_update
             (handleInput inp (reached Step_handleInput (pollEvents env (events inp) g))))))))
           (float32_of_int 700)
      \<and> frame env inp g = Inr g7 \<longrightarrow>
      (\<exists>g3 g5.
         g3 = fall_out_check (reached Step_fall_out_check (update_player
                (reached Step_player_update
                  (handleInput inp (reached Step_handleInput (pollEvents env (events inp) g))))))
         \<and> gameOver g3
         \<and> updatePlatforms env (reached Step_updatePlatforms
              (scroll_check (reached Step_scroll_check g3))) = Inr g5
         \<and> g7 = draw (reached Step_draw (handleCollisions (reached Step_handleCollisions g5)))
         \<and> gameOver g7
         \<and> score g7 = score g3 + int (length (filter (recycles (dy (player g3))) (platforms g3)))
         \<and> steps g7 = steps (pollEvents env (events inp) g) @
             [Step_handleInput, Step_player_update, Step_fall_out_check, Step_scroll_check,
              Step_updatePlatforms, Step_handleCollisions, Step_draw]
         \<and> (\<forall>inp2. list_ex key_R (events inp2) \<or>
              (\<exists>g8. frame env inp2 g7 = Inr g8 \<and> steps g8 = steps g7 @ [Step_draw]
                 \<and> player g8 = player g7 \<and> platforms g8 = platforms g7
                 \<and> score g8 = score g7 \<and> gameOver g8))))
   \<and> (\<not> gameOver (pollEvents env (events inp) g)
        \<and> score (pollEvents env (events inp) g)
            + int (length (platforms (pollEvents env (events inp) g))) \<le> INT_MAX \<longrightarrow>
        (\<exists>g7. frame env inp g = Inr g7))"
proof (intro conjI impI)
  assume a: "\<not> gameOver (pollEvents env (events inp) g)
      \<and> fgt (y (getPosition (player (update_player (reached Step_player_update
             (handleInput inp (reached Step_handleInput (pollEvents env (events inp) g))))))))
           (float32_of_int 700)
      \<and> frame env inp g = Inr g7"
  define g0 where "g0 = pollEvents env (events inp) g"
  define g2 where "g2 = update_player (reached Step_player_update
            (handleInput inp (reached Step_handleInput g0)))"
  define g3 where "g3 = fall_out_check (reached Step_fall_out_check g2)"
  from a have fallen: "fgt (y (getPosition (player g2))) (float32_of_int 700)"
    by (simp add: g2_def g0_def)
  then have over3: "gameOver g3"
    by (simp add: g3_def fall_out_check_def reached_def)
  have pl3: "player g3 = player g2"
    by (simp add: g3_def fall_out_check_def reached_def)
  have sc3: "scroll_check (reached Step_scroll_check g3) = reached Step_scroll_check g3"
    using fallen by (intro scroll_check_fallen) (simp add: reached_def pl3)
  from a obtain g5 where
    u: "updatePlatforms env (reached Step_updatePlatforms
          (scroll_check (reached Step_scroll_check g3))) = Inr g5"
    and g7: "g7 = draw (reached Step_draw (handleCollisions (reached Step_handleCollisions g5)))"
    using frame_playing_cases[of env inp g g7] by (auto simp: g3_def g2_def g0_def)
  have over5: "gameOver g5"
    using gameOver_updatePlatforms[OF u] over3 by (simp add: reached_def gameOver_scroll_check)
  have over7: "gameOver g7"
    using over5 by (simp add: g7 draw_def reached_def gameOver_handleCollisions)
  have st5: "steps g5 = steps g0 @ [Step_handleInput, Step_player_update, Step_fall_out_check,
      Step_scroll_check, Step_updatePlatforms]"
    using steps_updatePlatforms[OF u] by (simp add: g3_def g2_def steps_simps)
  have st7: "steps g7 = steps g0 @ [Step_handleInput, Step_player_update, Step_fall_out_check,
      Step_scroll_check, Step_updatePlatforms, Step_handleCollisions, Step_draw]"
    by (simp add: g7 steps_simps st5)
  have score7: "score g7 = score g3 + int (length (filter (recycles (dy (player g3))) (platforms g3)))"
    using updatePlatforms_result[OF u[unfolded sc3]]
    by (auto simp: g7 draw_def reached_def handleCollisions_def handleCollisions_loop_result
        updateScoreText_def)
  have next_frame: "list_ex key_R (events inp2) \<or>
          (\<exists>g8. frame env inp2 g7 = Inr g8 \<and> steps g8 = steps g7 @ [Step_draw]
             \<and> player g8 = player g7 \<and> platforms g8 = platforms g7 \<and> score g8 = score g7
             \<and> gameOver g8)" for inp2
  proof (cases "list_ex key_R (events inp2)")
    case True
    then show ?thesis by simp
  next
    case False
    show ?thesis
      using frame_gameOver[OF over7 False, of env] over7 by simp
  qed
  show "\<exists>g3 g5.
         g3 = fall_out_check (reached Step_fall_out_check (update_player
                (reached Step_player_update
                  (handleInput inp (reached Step_handleInput (pollEvents env (events inp) g))))))
         \<and> gameOver g3
         \<and> updatePlatforms env (reached Step_updatePlatforms
              (scroll_check (reached Step_scroll_check g3))) = Inr g5
         \<and> g7 = draw (reached Step_draw (handleCollisions (reached Step_handleCollisions g5)))
         \<and> gameOver g7
         \<and> score g7 = score g3 + int (length (filter (recycles (dy (player g3))) (platforms g3)))
         \<and> steps g7 = steps (pollEvents env (events inp) g) @
             [Step_handleInput, Step_player_update, Step_fall_out_check, Step_scroll_check,
              Step_updatePlatforms, Step_handleCollisions, Step_draw]
         \<and> (\<forall>inp2. list_ex key_R (events inp2) \<or>
              (\<exists>g8. frame env inp2 g7 = Inr g8 \<and> steps g8 = steps g7 @ [Step_draw]
                 \<and> player g8 = player g7 \<and> platforms g8 = platforms g7
                 \<and> score g8 = score g7 \<and> gameOver g8))"
    apply (rule exI[of _ g3], rule exI[of _ g5])
    using over3 u g7 over7 score7 st7 next_frame
    by (simp add: g3_def g2_def g0_def)
next
  assume "\<not> gameOver (pollEvents env (events inp) g)
        \<and> score (pollEvents env (events inp) g)
            + int (length (platforms (pollEvents env (events inp) g))) \<le> INT_MAX"
  then show "\<exists>g7. frame env inp g = Inr g7"
    using frame_playing_total by blast
qed

theorem game_over_frame_completes_witness:
  "\<exists>g7. \<not> gameOver (pollEvents example_env (events example_input) example_falling)
   \<and> score (pollEvents example_env (events example_input) example_falling)
       + int (length (platforms (pollEvents example_env (events example_input) example_falling)))
       \<le> INT_MAX
   \<and> fgt (y (getPosition (player (update_player (reached Step_player_update
           (handleInput example_input (reached Step_handleInput
             (pollEvents example_env (events example_input) example_falling))))))))
        (float32_of_int 700)
   \<and> frame example_env example_input example_falling = Inr g7 \<and> gameOver g7
   \<and> steps g7 = [Step_handleInput, Step_player_update, Step_fall_out_check,
             Step_scroll_check, Step_updatePlatforms, Step_handleCollisions, Step_draw]"
proof -
  have h1: "\<not> gameOver (pollEvents example_env (events example_input) example_falling)"
    by (simp add: pollEvents_example example_falling_def example_game_def)
  have h2: "score (pollEvents example_env (events example_input) example_falling)
       + int (length (platforms (pollEvents example_env (events example_input) example_falling)))
       \<le> INT_MAX"
    by (simp add: pollEvents_example example_falling_def example_game_def INT_MAX_def)
  have h3: "fgt (y (getPosition (player (update_player (reached Step_player_update
           (handleInput example_input (reached Step_handleInput
             (pollEvents example_env (events example_input) example_falling))))))))
        (float32_of_int 700)"
    by (simp add: falling_updated getPosition_def falling_fact)
  have s: "steps (pollEvents example_env (events example_input) example_falling) = []"
    by (simp add: pollEvents_example example_falling_def example_game_def)
  from game_over_frame_completes[of example_env example_input example_falling] h1 h2
  obtain g7 where f: "frame example_env example_input example_falling = Inr g7" by blast
  with game_over_frame_completes[of example_env example_input example_falling g7] h1 h3
  have "gameOver g7 \<and>
    steps g7 = steps (pollEvents example_env (events example_input) example_falling) @
         [Step_handleInput, Step_player_update, Step_fall_out_check, Step_scroll_check,
          Step_updatePlatforms, Step_handleCollisions, Step_draw]"
    by blast
  then have "gameOver g7 \<and> steps g7 = [Step_handleInput, Step_player_update, Step_fall_out_check,
             Step_scroll_check, Step_updatePlatforms, Step_handleCollisions, Step_draw]"
    by (simp add: s)
  with h1 h2 h3 f show ?thesis by blast
qed

end
